theory Spec2Isabelle
  imports Main
begin

section \<open>Go to definition for the toy Kotlin language server\<close>

text \<open>
  A shallow embedding of \<^verbatim>\<open>server/src/go-to-definition.ts\<close> and of the
  definition, import and cache handling of \<^verbatim>\<open>server/src/server.ts\<close>.

  The TypeScript works on three kinds of objects that come from libraries: ANTLR
  tokens and parse trees (antlr4ts), symbols and symbol tables (antlr4-c3), and
  location links (vscode-languageserver). They are modelled as data; the functions
  of the two source files are translated statement by statement on top of them.
  The library functions the files call (\<^verbatim>\<open>addNewSymbolOfType\<close>,
  \<^verbatim>\<open>symbolWithContext\<close>, \<^verbatim>\<open>withScope\<close> of the base visitor, the generated
  accessors of the parser) are written out as the libraries implement them, each under
  the name of its library. A JavaScript exception is a value of type \<open>error\<close>.
\<close>

subsection \<open>Tokens, parse trees, ranges\<close>

text \<open>
  An antlr4ts \<^verbatim>\<open>Token\<close>: \<^verbatim>\<open>line\<close> counts from 1,
  \<^verbatim>\<open>charPositionInLine\<close> from 0, and \<^verbatim>\<open>text\<close> (here \<open>tokenText\<close>)
  has the type \<^verbatim>\<open>string | undefined\<close>. A string is its list of code units, so that
  \<^verbatim>\<open>.length\<close> is \<open>length\<close>.
\<close>

record Token =
  line :: int
  charPositionInLine :: int
  tokenText :: "string option"

text \<open>The rule contexts of the toy Kotlin parser that the two files name.\<close>

datatype RuleKind =
  KotlinFile | ImportHeader | VariableDeclaration | FunctionDeclaration
  | SimpleIdentifier | Identifier | OtherRule nat

text \<open>
  A parse tree node is a \<^verbatim>\<open>ParserRuleContext\<close> (its \<^verbatim>\<open>start\<close> token,
  its \<^verbatim>\<open>stop\<close> token of type \<^verbatim>\<open>Token | undefined\<close>, its children) or a
  \<^verbatim>\<open>TerminalNode\<close> (its \<^verbatim>\<open>symbol\<close>). The first field is the identity
  of the node object: \<^verbatim>\<open>==\<close> on nodes compares it.
\<close>

type_synonym NodeId = nat

datatype ParseTree =
  ParserRuleContext NodeId RuleKind Token "Token option" "ParseTree list"
  | TerminalNode NodeId Token

fun nodeId :: "ParseTree \<Rightarrow> NodeId" where
  "nodeId (ParserRuleContext i k s e cs) = i"
| "nodeId (TerminalNode i t) = i"

fun childNodes :: "ParseTree \<Rightarrow> ParseTree list" where
  "childNodes (ParserRuleContext i k s e cs) = cs"
| "childNodes (TerminalNode i t) = []"

text \<open>
  \<^verbatim>\<open>ParseTree.text\<close>: the text of a terminal is the text of its token (the empty
  string when the token has none), the text of a rule context is the concatenation of
  the texts of its children.
\<close>

fun treeText :: "ParseTree \<Rightarrow> string" where
  "treeText (TerminalNode i t) = (case tokenText t of None \<Rightarrow> [] | Some s \<Rightarrow> s)"
| "treeText (ParserRuleContext i k s e cs) = concat (map treeText cs)"

record Position =
  pos_line :: int
  character :: int

record Range =
  range_start :: Position
  range_end :: Position

datatype error =
  TypeError
  | DuplicateSymbolError
  | NodeDoesNotExist
  | ReadFailure

text \<open>
  \<^verbatim>\<open>getRange\<close> (go-to-definition.ts, lines 46 to 60). \<^verbatim>\<open>start\<close> and
  \<^verbatim>\<open>stop\<close> are read off the node; reading \<^verbatim>\<open>stop.charPositionInLine\<close>
  when \<^verbatim>\<open>stop\<close> is undefined, or \<^verbatim>\<open>stop.text.length\<close> when the token has
  no text, throws a \<^verbatim>\<open>TypeError\<close>.
\<close>

fun startStop :: "ParseTree \<Rightarrow> Token option \<times> Token option" where
  "startStop (ParserRuleContext i k s e cs) = (Some s, e)"
| "startStop (TerminalNode i t) = (Some t, Some t)"

definition getRange :: "ParseTree \<Rightarrow> error + Range" where
  "getRange parseTree =
     (case startStop parseTree of (start, stop) \<Rightarrow>
        (case stop of
           None \<Rightarrow> Inl TypeError
         | Some stp \<Rightarrow>
            (case tokenText stp of
               None \<Rightarrow> Inl TypeError
             | Some txt \<Rightarrow>
                (let endCharacter = charPositionInLine stp + int (length txt) in
                 (case start of
                    None \<Rightarrow> Inl TypeError
                  | Some strt \<Rightarrow>
                     Inr \<lparr> range_start =
                             \<lparr> pos_line = line strt - 1,
                               character = charPositionInLine strt \<rparr>,
                           range_end =
                             \<lparr> pos_line = line stp - 1,
                               character = endCharacter \<rparr> \<rparr>)))))"

subsection \<open>Symbols and scopes\<close>

text \<open>
  A \<^verbatim>\<open>LocationLink\<close> of vscode-languageserver, as
  \<^verbatim>\<open>LocationLink.create(targetUri, targetRange, targetSelectionRange)\<close> makes it;
  \<^verbatim>\<open>originSelectionRange\<close> is optional.
\<close>

record LocationLink =
  targetUri :: string
  targetRange :: Range
  targetSelectionRange :: Range
  originSelectionRange :: "Range option"

text \<open>
  The symbol classes of antlr4-c3 that the files use. \<^verbatim>\<open>RoutineSymbol\<close> and
  \<^verbatim>\<open>SymbolTable\<close> extend \<^verbatim>\<open>ScopedSymbol\<close>; \<^verbatim>\<open>VariableSymbol\<close>
  does not. A table carries its options, of which there is one,
  \<^verbatim>\<open>allowDuplicateSymbols\<close> (false when the options object leaves it out).
\<close>

datatype SymbolKind =
  BaseSymbol | VariableSymbol | ScopedSymbol | RoutineSymbol | SymbolTable bool

fun instanceofScopedSymbol :: "SymbolKind \<Rightarrow> bool" where
  "instanceofScopedSymbol ScopedSymbol = True"
| "instanceofScopedSymbol RoutineSymbol = True"
| "instanceofScopedSymbol (SymbolTable allowDuplicates) = True"
| "instanceofScopedSymbol BaseSymbol = False"
| "instanceofScopedSymbol VariableSymbol = False"

text \<open>
  A symbol with the fields the files read and write: its \<^verbatim>\<open>name\<close>, its class,
  its \<^verbatim>\<open>context\<close> (the parse tree node it is anchored at, if any), the
  \<^verbatim>\<open>location\<close> property that \<^verbatim>\<open>registerDeclaration\<close> adds (absent until
  then), and the array of its children in the order they were added (empty for a
  symbol that is not scoped).
\<close>

datatype Symbol =
  Symbol (name: string) (kind: SymbolKind) (symContext: "NodeId option")
    (location: "LocationLink option") (children: "Symbol list")

text \<open>
  antlr4-c3 keeps \<^verbatim>\<open>parent\<close> consistent with the children arrays, so the
  symbols form a tree under the table. A reference to a symbol object, as
  \<^verbatim>\<open>findDeclaration\<close> receives it, is the symbol together with the reference to
  its parent (\<open>None\<close> for \<^verbatim>\<open>undefined\<close>).
\<close>

datatype SymbolRef = SymbolRef (self: Symbol) (parent: "SymbolRef option")

text \<open>
  A parse tree node as the lookup receives it: the node and the chain of its
  \<^verbatim>\<open>parent\<close> links.
\<close>

datatype Context = Context (node: ParseTree) (parentContext: "Context option")

text \<open>
  \<^verbatim>\<open>SymbolTable.symbolWithContext\<close> of antlr4-c3: the first symbol below the
  table, in depth-first order, parents before children, whose \<^verbatim>\<open>context\<close> is
  the given node. The table itself is not a candidate. The tables of this server have
  no dependencies.
\<close>

fun findRecursive :: "NodeId \<Rightarrow> SymbolRef option \<Rightarrow> Symbol \<Rightarrow> SymbolRef option"
  and findRecursiveIn :: "NodeId \<Rightarrow> SymbolRef option \<Rightarrow> Symbol list \<Rightarrow> SymbolRef option"
where
  "findRecursive ctx p (Symbol n k c l cs) =
     (if c = Some ctx then Some (SymbolRef (Symbol n k c l cs) p)
      else if instanceofScopedSymbol k
        then findRecursiveIn ctx (Some (SymbolRef (Symbol n k c l cs) p)) cs
      else None)"
| "findRecursiveIn ctx p [] = None"
| "findRecursiveIn ctx p (s # ss) =
     (case findRecursive ctx p s of
        Some r \<Rightarrow> Some r
      | None \<Rightarrow> findRecursiveIn ctx p ss)"

definition symbolWithContext :: "Symbol \<Rightarrow> NodeId \<Rightarrow> SymbolRef option" where
  "symbolWithContext symbolTable ctx =
     findRecursiveIn ctx (Some (SymbolRef symbolTable None)) (children symbolTable)"

subsection \<open>The lookup: \<^verbatim>\<open>getScope\<close> and \<^verbatim>\<open>findDeclaration\<close>\<close>

text \<open>
  \<^verbatim>\<open>getScope\<close> (go-to-definition.ts, lines 77 to 87): the symbol anchored at the
  node or at its nearest anchored ancestor; \<^verbatim>\<open>undefined\<close> when the parent chain
  ends.
\<close>

fun getScope :: "Context option \<Rightarrow> Symbol \<Rightarrow> SymbolRef option" where
  "getScope None symbolTable = None"
| "getScope (Some (Context n p)) symbolTable =
     (case symbolWithContext symbolTable (nodeId n) of
        Some scope \<Rightarrow> Some scope
      | None \<Rightarrow> getScope p symbolTable)"

text \<open>
  The loop at the head of \<^verbatim>\<open>findDeclaration\<close> (lines 63 to 65): climb until a
  scoped symbol, or until there is no parent.
\<close>

fun skipToScoped :: "SymbolRef option \<Rightarrow> SymbolRef option" where
  "skipToScoped None = None"
| "skipToScoped (Some (SymbolRef s p)) =
     (if instanceofScopedSymbol (kind s) then Some (SymbolRef s p) else skipToScoped p)"

lemma skipToScoped_size:
  "skipToScoped scope = Some r \<Longrightarrow> size r \<le> size_option size scope"
proof (induction scope rule: skipToScoped.induct)
  case 1
  then show ?case by simp
next
  case (2 s p)
  then show ?case by (auto split: if_splits)
qed

text \<open>
  \<^verbatim>\<open>findDeclaration\<close> (lines 62 to 75).
  \<^verbatim>\<open>getSymbolsOfType(BaseSymbol)\<close> is the array of all children, every symbol
  being a \<^verbatim>\<open>Symbol\<close>, and \<^verbatim>\<open>Array.prototype.find\<close> yields its first
  element with the name. \<^verbatim>\<open>hasOwnProperty("location")\<close> is \<open>location \<noteq> None\<close>.
\<close>

function findDeclaration :: "string \<Rightarrow> SymbolRef option \<Rightarrow> Symbol option" where
  "findDeclaration nm scope =
     (case skipToScoped scope of
        None \<Rightarrow> None
      | Some r \<Rightarrow>
          (case List.find (\<lambda>s. name s = nm) (children (self r)) of
             Some symbol \<Rightarrow>
               (if location symbol \<noteq> None then Some symbol
                else findDeclaration nm (parent r))
           | None \<Rightarrow> findDeclaration nm (parent r)))"
  by pat_completeness auto
termination
proof (relation "measure (\<lambda>(nm, scope). size_option size scope)")
  show "wf (measure (\<lambda>(nm, scope). size_option size scope))" by simp
next
  fix nm :: string and scope r x
  assume "skipToScoped scope = Some r"
  then have "size r \<le> size_option size scope" by (rule skipToScoped_size)
  moreover have "size_option size (parent r) < size r"
    by (cases r) (auto split: option.splits)
  ultimately show "((nm, parent r), (nm, scope)) \<in> measure (\<lambda>(nm, scope). size_option size scope)"
    by simp
next
  fix nm :: string and scope r
  assume "skipToScoped scope = Some r"
  then have "size r \<le> size_option size scope" by (rule skipToScoped_size)
  moreover have "size_option size (parent r) < size r"
    by (cases r) (auto split: option.splits)
  ultimately show "((nm, parent r), (nm, scope)) \<in> measure (\<lambda>(nm, scope). size_option size scope)"
    by simp
qed

declare findDeclaration.simps [simp del]

text \<open>
  The result of \<^verbatim>\<open>computeTokenPosition\<close> as the definition handler uses it: its
  \<^verbatim>\<open>context\<close>, which may be missing.
\<close>

record TokenPosition =
  positionContext :: "Context option"

text \<open>
  The definition handler from the computed position on (server.ts, lines 157 to
  164). The spread copies the location and adds \<^verbatim>\<open>originSelectionRange\<close>; an
  exception of \<^verbatim>\<open>getRange\<close> leaves the handler.
\<close>

definition definitionAt :: "TokenPosition option \<Rightarrow> Symbol \<Rightarrow> error + LocationLink option" where
  "definitionAt position symbolTable =
     (case position of
        None \<Rightarrow> Inr None
      | Some pos \<Rightarrow>
         (case positionContext pos of
            None \<Rightarrow> Inr None
          | Some ctx \<Rightarrow>
             (let scope = getScope (Some ctx) symbolTable;
                  declaration = findDeclaration (treeText (node ctx)) scope
              in case declaration of
                   None \<Rightarrow> Inr None
                 | Some d \<Rightarrow>
                    (case location d of
                       None \<Rightarrow> Inr None
                     | Some loc \<Rightarrow>
                        (case getRange (node ctx) of
                           Inl e \<Rightarrow> Inl e
                         | Inr r \<Rightarrow> Inr (Some (loc\<lparr>originSelectionRange := Some r\<rparr>)))))))"

subsection \<open>Adding symbols to a table\<close>

text \<open>
  The builder holds references into the table it is filling and changes the objects
  behind them. In the model the table is a value, and a reference into it is the list
  of child indices that leads from the table to the symbol; \<^verbatim>\<open>parent\<close> drops
  the last index.
\<close>

type_synonym SymbolPath = "nat list"

fun symbolAt :: "Symbol \<Rightarrow> SymbolPath \<Rightarrow> Symbol option" where
  "symbolAt s [] = Some s"
| "symbolAt s (i # p) =
     (if i < length (children s) then symbolAt (children s ! i) p else None)"

fun updateAt :: "SymbolPath \<Rightarrow> (Symbol \<Rightarrow> Symbol) \<Rightarrow> Symbol \<Rightarrow> Symbol" where
  "updateAt [] f s = f s"
| "updateAt (i # p) f s =
     (case s of Symbol n k c l cs \<Rightarrow>
        Symbol n k c l (if i < length cs then cs[i := updateAt p f (cs ! i)] else cs))"

definition setLocation :: "LocationLink \<Rightarrow> Symbol \<Rightarrow> Symbol" where
  "setLocation loc s = Symbol (name s) (kind s) (symContext s) (Some loc) (children s)"

definition setContext :: "NodeId \<Rightarrow> Symbol \<Rightarrow> Symbol" where
  "setContext ctx s = Symbol (name s) (kind s) (Some ctx) (location s) (children s)"

definition pushChild :: "Symbol \<Rightarrow> Symbol \<Rightarrow> Symbol" where
  "pushChild child s =
     Symbol (name s) (kind s) (symContext s) (location s) (children s @ [child])"

fun allowDuplicateSymbols :: "Symbol \<Rightarrow> bool" where
  "allowDuplicateSymbols (Symbol n (SymbolTable allow) c l cs) = allow"
| "allowDuplicateSymbols (Symbol n k c l cs) = False"

text \<open>
  \<^verbatim>\<open>ScopedSymbol.addSymbol\<close> of antlr4-c3, for a symbol that is new, on the
  scope at a path of the table. Unless the table allows duplicates, a child of the
  scope with the name of the new symbol, the name not being empty, makes it throw
  \<^verbatim>\<open>DuplicateSymbolError\<close>; otherwise the symbol is pushed onto the children of
  the scope. A path that leads to no symbol stands for no object of the program.
\<close>

definition addSymbol :: "Symbol \<Rightarrow> SymbolPath \<Rightarrow> Symbol \<Rightarrow> error + Symbol" where
  "addSymbol table p symbol =
     (case symbolAt table p of
        None \<Rightarrow> Inl TypeError
      | Some scopeSymbol \<Rightarrow>
         (if \<not> allowDuplicateSymbols table \<and>
             (\<exists>child\<in>set (children scopeSymbol).
                name symbol \<noteq> [] \<and> name child = name symbol)
          then Inl DuplicateSymbolError
          else Inr (updateAt p (pushChild symbol) table)))"

text \<open>
  \<^verbatim>\<open>SymbolTable.addNewSymbolOfType(t, parent, name)\<close> of antlr4-c3: a new symbol
  of class \<open>t\<close> is added to \<open>parent\<close>, or to the table when \<open>parent\<close> is
  undefined, and returned: the table as it then is, and the path of the new symbol,
  the last child of its parent.
\<close>

definition addNewSymbolOfType ::
  "Symbol \<Rightarrow> SymbolKind \<Rightarrow> SymbolPath option \<Rightarrow> string \<Rightarrow> error + (Symbol \<times> SymbolPath)"
where
  "addNewSymbolOfType table t parentPath nm =
     (let p = (case parentPath of None \<Rightarrow> [] | Some q \<Rightarrow> q) in
      case addSymbol table p (Symbol nm t None None []) of
        Inl e \<Rightarrow> Inl e
      | Inr table' \<Rightarrow>
          Inr (table',
               p @ [case symbolAt table p of
                      None \<Rightarrow> 0
                    | Some scopeSymbol \<Rightarrow> length (children scopeSymbol)]))"

subsection \<open>The symbol table visitor\<close>

text \<open>
  The fields of \<^verbatim>\<open>SymbolTableVisitor\<close>: \<^verbatim>\<open>documentUri\<close> and
  \<^verbatim>\<open>symbolTable\<close> (go-to-definition.ts, lines 14 and 15) and the current
  \<^verbatim>\<open>scope\<close> of the base class.
\<close>

record SymbolTableVisitor =
  documentUri :: string
  symbolTable :: Symbol
  scope :: SymbolPath

text \<open>
  The constructor with its default arguments (lines 14 to 18): a table made with the
  options \<^verbatim>\<open>{}\<close>, and in it an anonymous \<^verbatim>\<open>ScopedSymbol\<close>, the root
  scope, which is the current scope.
\<close>

definition newSymbolTableVisitor :: "string \<Rightarrow> SymbolTableVisitor" where
  "newSymbolTableVisitor uri =
     \<lparr> documentUri = uri,
       symbolTable = Symbol [] (SymbolTable False) None None
                       [Symbol [] ScopedSymbol None None []],
       scope = [0] \<rparr>"

text \<open>
  What a visitor method does: the exception it throws, if any, and the visitor as it
  then is. The objects a method changed before it threw stay changed.
\<close>

type_synonym outcome = "error option \<times> SymbolTableVisitor"

text \<open>
  \<^verbatim>\<open>getRuleContext(0, T)\<close>, behind the generated accessors
  \<^verbatim>\<open>simpleIdentifier()\<close> and \<^verbatim>\<open>identifier()\<close>: the first child that is a
  context of the rule; it throws when there is none.
\<close>

fun isRule :: "RuleKind \<Rightarrow> ParseTree \<Rightarrow> bool" where
  "isRule r (ParserRuleContext i k s e cs) = (k = r)"
| "isRule r (TerminalNode i t) = False"

definition getRuleContext :: "RuleKind \<Rightarrow> ParseTree \<Rightarrow> error + ParseTree" where
  "getRuleContext r ctx =
     (case List.find (isRule r) (childNodes ctx) of
        None \<Rightarrow> Inl NodeDoesNotExist
      | Some c \<Rightarrow> Inr c)"

text \<open>
  \<^verbatim>\<open>registerDeclaration\<close> (lines 41 to 43). The arguments of
  \<^verbatim>\<open>LocationLink.create\<close> are evaluated from left to right, then the property is
  assigned.
\<close>

definition registerDeclaration ::
  "SymbolPath \<Rightarrow> ParseTree \<Rightarrow> ParseTree \<Rightarrow> SymbolTableVisitor \<Rightarrow> outcome"
where
  "registerDeclaration symbol tree declarationName v =
     (case getRange tree of
        Inl e \<Rightarrow> (Some e, v)
      | Inr r1 \<Rightarrow>
         (case getRange declarationName of
            Inl e \<Rightarrow> (Some e, v)
          | Inr r2 \<Rightarrow>
             (None,
              v\<lparr>symbolTable :=
                  updateAt symbol
                    (setLocation \<lparr> targetUri = documentUri v, targetRange = r1,
                                   targetSelectionRange = r2,
                                   originSelectionRange = None \<rparr>)
                    (symbolTable v)\<rparr>)))"

text \<open>
  \<^verbatim>\<open>withScope\<close> of the base visitor (toy-kotlin-language-server): the new scoped
  symbol is added to the current scope and anchored at the tree, it is the current
  scope while the action runs, and \<^verbatim>\<open>finally\<close> the current scope is its parent
  again.
\<close>

definition withScope ::
  "ParseTree \<Rightarrow> SymbolKind \<Rightarrow> string \<Rightarrow> (SymbolTableVisitor \<Rightarrow> outcome) \<Rightarrow>
     SymbolTableVisitor \<Rightarrow> outcome"
where
  "withScope tree t nm action v =
     (case addNewSymbolOfType (symbolTable v) t (Some (scope v)) nm of
        Inl e \<Rightarrow> (Some e, v)
      | Inr (table, newScope) \<Rightarrow>
         (case action (v\<lparr>symbolTable := updateAt newScope (setContext (nodeId tree)) table,
                         scope := newScope\<rparr>) of
            (r, v') \<Rightarrow> (r, v'\<lparr>scope := butlast newScope\<rparr>)))"

lemma withScope_cong [fundef_cong]:
  assumes "tree = tree'" and "t = t'" and "nm = nm'" and "v = v'"
    and "\<And>w. action w = action' w"
  shows "withScope tree t nm action v = withScope tree' t' nm' action' v'"
proof -
  from assms(5) have "action = action'" by (rule ext)
  with assms(1-4) show ?thesis by simp
qed

text \<open>\<^verbatim>\<open>withDeclaration\<close> (lines 32 to 39).\<close>

definition withDeclaration ::
  "ParseTree \<Rightarrow> ParseTree \<Rightarrow> SymbolKind \<Rightarrow> string \<Rightarrow> (SymbolTableVisitor \<Rightarrow> outcome) \<Rightarrow>
     SymbolTableVisitor \<Rightarrow> outcome"
where
  "withDeclaration declaration declarationName t nm action v =
     withScope declaration t nm
       (\<lambda>w. case registerDeclaration (scope w) declaration declarationName w of
              (Some e, w') \<Rightarrow> (Some e, w')
            | (None, w') \<Rightarrow> action w') v"

lemma withDeclaration_cong [fundef_cong]:
  assumes "declaration = declaration'" and "declarationName = declarationName'"
    and "t = t'" and "nm = nm'" and "v = v'"
    and "\<And>w. action w = action' w"
  shows "withDeclaration declaration declarationName t nm action v =
           withDeclaration declaration' declarationName' t' nm' action' v'"
proof -
  from assms(6) have "action = action'" by (rule ext)
  with assms(1-5) show ?thesis by simp
qed

text \<open>
  The walk. \<^verbatim>\<open>visit\<close> dispatches on the node: a variable declaration to
  \<^verbatim>\<open>visitVariableDeclaration\<close> (lines 20 to 24), a function declaration to
  \<^verbatim>\<open>visitFunctionDeclaration\<close> (lines 26 to 30), any other rule context to
  \<^verbatim>\<open>visitChildren\<close>, which visits the children in order (\<open>visitNodes\<close> on the
  list of children); a terminal does nothing.
\<close>

fun visit :: "ParseTree \<Rightarrow> SymbolTableVisitor \<Rightarrow> outcome"
  and visitNodes :: "ParseTree list \<Rightarrow> SymbolTableVisitor \<Rightarrow> outcome"
where
  "visit (TerminalNode i t) v = (None, v)"
| "visit (ParserRuleContext i k s e cs) v =
     (if k = VariableDeclaration then
        (case getRuleContext SimpleIdentifier (ParserRuleContext i k s e cs) of
           Inl err \<Rightarrow> (Some err, v)
         | Inr simpleIdentifier \<Rightarrow>
            (case addNewSymbolOfType (symbolTable v) VariableSymbol (Some (scope v))
                    (treeText simpleIdentifier) of
               Inl err \<Rightarrow> (Some err, v)
             | Inr (table, symbol) \<Rightarrow>
                (case registerDeclaration symbol (ParserRuleContext i k s e cs)
                        simpleIdentifier (v\<lparr>symbolTable := table\<rparr>) of
                   (Some err, v') \<Rightarrow> (Some err, v')
                 | (None, v') \<Rightarrow> visitNodes cs v')))
      else if k = FunctionDeclaration then
        (case getRuleContext Identifier (ParserRuleContext i k s e cs) of
           Inl err \<Rightarrow> (Some err, v)
         | Inr fname \<Rightarrow>
            withDeclaration (ParserRuleContext i k s e cs) fname RoutineSymbol
              (treeText fname) (\<lambda>w. visitNodes cs w) v)
      else visitNodes cs v)"
| "visitNodes [] v = (None, v)"
| "visitNodes (c # cs) v =
     (case visit c v of
        (Some err, v') \<Rightarrow> (Some err, v')
      | (None, v') \<Rightarrow> visitNodes cs v')"

subsection \<open>The server: imports\<close>

text \<open>
  What the server takes from outside: the file system, the URI and path functions
  behind \<^verbatim>\<open>ensurePath\<close>, the lexer and parser (\<open>kotlinFile\<close> stands for lexing
  a text and calling \<^verbatim>\<open>parser.kotlinFile()\<close>; the tree and the identities of its
  nodes are what the parser gives for the text), the accessor chain
  \<^verbatim>\<open>preamble()?.importList()?.importHeader()\<close>, and
  \<^verbatim>\<open>computeTokenPosition\<close>.
\<close>

record Env =
  existsSync :: "string \<Rightarrow> bool"
  readFileSync :: "string \<Rightarrow> error + string"
  fileUriToPath :: "string \<Rightarrow> error + string"
  decodeURIComponent :: "string \<Rightarrow> error + string"
  isAbsolute :: "string \<Rightarrow> bool"
  resolve :: "string \<Rightarrow> string"
  kotlinFile :: "string \<Rightarrow> ParseTree"
  importHeader :: "ParseTree \<Rightarrow> ParseTree list option"
  computeTokenPosition :: "ParseTree \<Rightarrow> string \<Rightarrow> Position \<Rightarrow> TokenPosition option"

text \<open>
  A call of \<^verbatim>\<open>connection.window.showErrorMessage\<close>: the text, and the exception
  appended to it, if one is.
\<close>

datatype WindowMessage = ShowErrorMessage string "error option"

text \<open>\<^verbatim>\<open>computeBaseUri\<close> (server.ts, lines 92 to 100): the URI up to and including
  its last slash, or the empty string when it has none.\<close>

definition computeBaseUri :: "string \<Rightarrow> string" where
  "computeBaseUri uri =
     (if CHR ''/'' \<in> set uri
      then rev (dropWhile (\<lambda>c. c \<noteq> CHR ''/'') (rev uri))
      else [])"

fun startsWith :: "string \<Rightarrow> string \<Rightarrow> bool" where
  "startsWith s pre = (take (length pre) s = pre)"

text \<open>\<^verbatim>\<open>ensurePath\<close> (lines 134 to 148).\<close>

definition ensurePath :: "Env \<Rightarrow> string \<Rightarrow> error + string" where
  "ensurePath env path =
     (if startsWith path ''file:'' then
        (case fileUriToPath env path of
           Inl e \<Rightarrow> Inl e
         | Inr fsPath \<Rightarrow>
            (case decodeURIComponent env fsPath of
               Inl e \<Rightarrow> Inl e
             | Inr decoded \<Rightarrow>
                (if \<not> startsWith decoded [CHR 0x5C, CHR 0x5C] \<and> startsWith decoded [CHR 0x5C]
                 then Inr (drop 1 decoded)
                 else Inr decoded)))
      else if \<not> isAbsolute env path then Inr (resolve env path)
      else Inr path)"

text \<open>
  \<^verbatim>\<open>processImport\<close> (lines 119 to 132). Whatever is thrown while the file is
  read, parsed and visited is caught and shown; what the visitor did to the table
  before stays done.
\<close>

definition processImport ::
  "Env \<Rightarrow> string \<Rightarrow> SymbolTableVisitor \<times> WindowMessage list \<Rightarrow>
     SymbolTableVisitor \<times> WindowMessage list"
where
  "processImport env path st =
     (case st of (v, msgs) \<Rightarrow>
        (case readFileSync env path of
           Inl e \<Rightarrow>
             (v, msgs @ [ShowErrorMessage (''Cannot read from imported file '' @ path @ '': '')
                           (Some e)])
         | Inr data \<Rightarrow>
            (case visit (kotlinFile env data) v of
               (None, v') \<Rightarrow> (v', msgs)
             | (Some e, v') \<Rightarrow>
                 (v', msgs @ [ShowErrorMessage
                               (''Cannot read from imported file '' @ path @ '': '')
                               (Some e)]))))"

text \<open>The loop of \<^verbatim>\<open>processImports\<close> (lines 106 to 115).\<close>

fun importLoop ::
  "Env \<Rightarrow> string \<Rightarrow> string \<Rightarrow> ParseTree list \<Rightarrow> SymbolTableVisitor \<times> WindowMessage list \<Rightarrow>
     error option \<times> SymbolTableVisitor \<times> WindowMessage list"
where
  "importLoop env baseUri basePath [] st = (None, st)"
| "importLoop env baseUri basePath (imp # rest) st =
     (case st of (v, msgs) \<Rightarrow>
        (case getRuleContext Identifier imp of
           Inl e \<Rightarrow> (Some e, (v, msgs))
         | Inr ident \<Rightarrow>
            (let filename = treeText ident @ ''.mykt'';
                 filepath = basePath @ filename
             in if existsSync env filepath
                then importLoop env baseUri basePath rest
                       (processImport env filepath (v\<lparr>documentUri := baseUri @ filename\<rparr>, msgs))
                else importLoop env baseUri basePath rest
                       (v, msgs @ [ShowErrorMessage (''Imported file not found: '' @ filepath)
                                     None]))))"

text \<open>\<^verbatim>\<open>processImports\<close> (lines 102 to 117).\<close>

definition processImports ::
  "Env \<Rightarrow> ParseTree list \<Rightarrow> SymbolTableVisitor \<times> WindowMessage list \<Rightarrow>
     error option \<times> SymbolTableVisitor \<times> WindowMessage list"
where
  "processImports env imports st =
     (case st of (symbolTableVisitor, msgs) \<Rightarrow>
        (let uri = documentUri symbolTableVisitor;
             baseUri = computeBaseUri uri
         in case ensurePath env baseUri of
              Inl e \<Rightarrow> (Some e, (symbolTableVisitor, msgs))
            | Inr basePath \<Rightarrow>
               (case importLoop env baseUri basePath imports (symbolTableVisitor, msgs) of
                  (Some e, st') \<Rightarrow> (Some e, st')
                | (None, (v', msgs')) \<Rightarrow> (None, (v'\<lparr>documentUri := uri\<rparr>, msgs')))))"

subsection \<open>The server: the parse cache and the definition request\<close>

datatype KotlinParser = KotlinParser (inputStream: string)

text \<open>
  A text document with the three properties the server hangs on it
  (\<^verbatim>\<open>document["parser"]\<close>, \<^verbatim>\<open>document["parseTree"]\<close>,
  \<^verbatim>\<open>document["symbolTableVisitor"]\<close>), \<open>None\<close> for \<^verbatim>\<open>undefined\<close>.
\<close>

record TextDocument =
  uri :: string
  getText :: string
  parser :: "KotlinParser option"
  parseTree :: "ParseTree option"
  symbolTableVisitor :: "SymbolTableVisitor option"

text \<open>\<^verbatim>\<open>markForReparsing\<close> (lines 167 to 171).\<close>

definition markForReparsing :: "TextDocument \<Rightarrow> TextDocument" where
  "markForReparsing document =
     document\<lparr>parser := None, parseTree := None, symbolTableVisitor := None\<rparr>"

text \<open>The handler of \<^verbatim>\<open>documents.onDidChangeContent\<close> (lines 88 to 90), on the
  changed document.\<close>

definition onDidChangeContent :: "TextDocument \<Rightarrow> TextDocument" where
  "onDidChangeContent document = markForReparsing document"

text \<open>What \<^verbatim>\<open>ensureParsed\<close> returns.\<close>

record Parsed =
  parsedParser :: KotlinParser
  parsedParseTree :: "ParseTree option"
  parsedVisitor :: "SymbolTableVisitor option"

text \<open>
  \<^verbatim>\<open>ensureParsed\<close> (lines 173 to 193): what it returns or throws, the document
  and the messages shown.
\<close>

definition ensureParsed ::
  "Env \<Rightarrow> TextDocument \<times> WindowMessage list \<Rightarrow>
     (error + Parsed) \<times> TextDocument \<times> WindowMessage list"
where
  "ensureParsed env st =
     (case st of (document, msgs) \<Rightarrow>
        (case parser document of
           Some p \<Rightarrow>
             (Inr \<lparr> parsedParser = p, parsedParseTree = parseTree document,
                    parsedVisitor = symbolTableVisitor document \<rparr>,
              document, msgs)
         | None \<Rightarrow>
            (let p = KotlinParser (getText document);
                 tree = kotlinFile env (getText document);
                 visitor0 = newSymbolTableVisitor (uri document)
             in case (case importHeader env tree of
                        None \<Rightarrow> (None, (visitor0, msgs))
                      | Some imports \<Rightarrow> processImports env imports (visitor0, msgs)) of
                  (Some e, (visitor1, msgs1)) \<Rightarrow> (Inl e, document, msgs1)
                | (None, (visitor1, msgs1)) \<Rightarrow>
                   (case visit tree visitor1 of
                      (Some e, visitor2) \<Rightarrow> (Inl e, document, msgs1)
                    | (None, visitor2) \<Rightarrow>
                       (Inr \<lparr> parsedParser = p, parsedParseTree = Some tree,
                              parsedVisitor = Some visitor2 \<rparr>,
                        document\<lparr>parser := Some p, parseTree := Some tree,
                                 symbolTableVisitor := Some visitor2\<rparr>,
                        msgs1)))))"

record DefinitionParams =
  textDocumentUri :: string
  position :: Position

text \<open>
  The handler of \<^verbatim>\<open>connection.onDefinition\<close> (lines 150 to 165) on the open
  documents. Reading a property of \<^verbatim>\<open>undefined\<close> (an unknown document, a cache
  entry without tree or visitor) throws.
\<close>

definition onDefinition ::
  "Env \<Rightarrow> (string \<rightharpoonup> TextDocument) \<times> WindowMessage list \<Rightarrow> DefinitionParams \<Rightarrow>
     (error + LocationLink option) \<times> (string \<rightharpoonup> TextDocument) \<times> WindowMessage list"
where
  "onDefinition env st params =
     (case st of (documents, msgs) \<Rightarrow>
        (case documents (textDocumentUri params) of
           None \<Rightarrow> (Inl TypeError, documents, msgs)
         | Some document \<Rightarrow>
            (case ensureParsed env (document, msgs) of
               (Inl e, document', msgs') \<Rightarrow>
                 (Inl e, documents(textDocumentUri params \<mapsto> document'), msgs')
             | (Inr parsed, document', msgs') \<Rightarrow>
                 (case (parsedParseTree parsed, parsedVisitor parsed) of
                    (Some tree, Some visitor) \<Rightarrow>
                      (definitionAt
                         (computeTokenPosition env tree (inputStream (parsedParser parsed))
                            \<lparr> pos_line = pos_line (position params) + 1,
                              character = character (position params) \<rparr>)
                         (symbolTable visitor),
                       documents(textDocumentUri params \<mapsto> document'), msgs')
                  | _ \<Rightarrow>
                      (Inl TypeError,
                       documents(textDocumentUri params \<mapsto> document'), msgs')))))"

subsection \<open>Notions for stating the properties\<close>

text \<open>
  The scope chain of a symbol reference: the symbol and its ancestors, innermost
  first. \<open>firstLocated nm s\<close>: the first child of \<open>s\<close> named \<open>nm\<close>, the one
  \<^verbatim>\<open>find\<close> yields, exists and has a location.
\<close>

fun scopeChain :: "SymbolRef option \<Rightarrow> Symbol list" where
  "scopeChain None = []"
| "scopeChain (Some (SymbolRef s p)) = s # scopeChain p"

definition firstLocated :: "string \<Rightarrow> Symbol \<Rightarrow> bool" where
  "firstLocated nm s =
     (case List.find (\<lambda>c. name c = nm) (children s) of
        None \<Rightarrow> False
      | Some c \<Rightarrow> location c \<noteq> None)"

text \<open>The nodes on the parent chain of a node, the node first.\<close>

fun contextChain :: "Context option \<Rightarrow> ParseTree list" where
  "contextChain None = []"
| "contextChain (Some (Context n p)) = n # contextChain p"

text \<open>
  The declaration locations recorded in a symbol and below it. \<open>frame v v'\<close>: from
  the visitor \<open>v\<close> to the visitor \<open>v'\<close> the document URI and the current scope are
  the same, and every location of the table that is new carries the document URI.
\<close>

fun locations :: "Symbol \<Rightarrow> LocationLink list" where
  "locations (Symbol n k c l cs) =
     (case l of None \<Rightarrow> [] | Some x \<Rightarrow> [x]) @ concat (map locations cs)"

definition frame :: "SymbolTableVisitor \<Rightarrow> SymbolTableVisitor \<Rightarrow> bool" where
  "frame v v' \<longleftrightarrow>
     documentUri v' = documentUri v \<and> scope v' = scope v \<and>
     set (locations (symbolTable v')) \<subseteq>
       set (locations (symbolTable v)) \<union> {l. targetUri l = documentUri v}"

text \<open>
  The URIs of the files an import list names, relative to a base URI: what
  \<^verbatim>\<open>processImports\<close> sets \<^verbatim>\<open>documentUri\<close> to for an import that is found.
\<close>

definition importedUris :: "string \<Rightarrow> ParseTree list \<Rightarrow> string set" where
  "importedUris baseUri imps =
     {baseUri @ treeText ident @ ''.mykt'' | imp ident.
        imp \<in> set imps \<and> getRuleContext Identifier imp = Inr ident}"

text \<open>
  \<open>uniqueNames\<close>: in a symbol and below it no scope has two children of one name
  that is not empty, which is what \<^verbatim>\<open>addSymbol\<close> checks. \<open>subtrees\<close>: the
  symbol and everything below it. \<open>noDuplicates\<close>: the table of a visitor has
  unique names and does not allow duplicates.
\<close>

fun uniqueNames :: "Symbol \<Rightarrow> bool" where
  "uniqueNames (Symbol n k c l cs) =
     (distinct (filter (\<lambda>x. x \<noteq> []) (map name cs)) \<and> (\<forall>c\<in>set cs. uniqueNames c))"

fun subtrees :: "Symbol \<Rightarrow> Symbol set" where
  "subtrees (Symbol n k c l cs) = insert (Symbol n k c l cs) (\<Union>c\<in>set cs. subtrees c)"

definition noDuplicates :: "SymbolTableVisitor \<Rightarrow> bool" where
  "noDuplicates v \<longleftrightarrow>
     uniqueNames (symbolTable v) \<and> \<not> allowDuplicateSymbols (symbolTable v)"

subsection \<open>A sample program\<close>

text \<open>
  The parse tree of
  \<^verbatim>\<open>
  val x = 1
  fun f() {
      val x = 2
      x
      z
  }
  val y = x
  \<close>
  with the nodes the visitor and the lookup look at: a variable declaration covers its
  name, a use is a terminal inside a rule context. \<open>innerUseContext\<close>,
  \<open>unknownUseContext\<close> and \<open>outerUseContext\<close> are the uses of \<open>x\<close> in the routine,
  of \<open>z\<close>, and of \<open>x\<close> in the last line, with their parent chains.
\<close>

definition tok :: "int \<Rightarrow> int \<Rightarrow> string \<Rightarrow> Token" where
  "tok l c s = \<lparr> line = l, charPositionInLine = c, tokenText = Some s \<rparr>"

definition outerDecl :: ParseTree where
  "outerDecl =
     ParserRuleContext 1 VariableDeclaration (tok 1 4 ''x'') (Some (tok 1 4 ''x''))
       [ParserRuleContext 2 SimpleIdentifier (tok 1 4 ''x'') (Some (tok 1 4 ''x''))
          [TerminalNode 3 (tok 1 4 ''x'')]]"

definition innerDecl :: ParseTree where
  "innerDecl =
     ParserRuleContext 13 VariableDeclaration (tok 3 8 ''x'') (Some (tok 3 8 ''x''))
       [ParserRuleContext 14 SimpleIdentifier (tok 3 8 ''x'') (Some (tok 3 8 ''x''))
          [TerminalNode 15 (tok 3 8 ''x'')]]"

definition innerUse :: ParseTree where
  "innerUse = TerminalNode 17 (tok 4 4 ''x'')"

definition innerStatement :: ParseTree where
  "innerStatement =
     ParserRuleContext 16 (OtherRule 1) (tok 4 4 ''x'') (Some (tok 4 4 ''x'')) [innerUse]"

definition unknownUse :: ParseTree where
  "unknownUse = TerminalNode 20 (tok 5 4 ''z'')"

definition unknownStatement :: ParseTree where
  "unknownStatement =
     ParserRuleContext 19 (OtherRule 1) (tok 5 4 ''z'') (Some (tok 5 4 ''z'')) [unknownUse]"

definition routineBody :: ParseTree where
  "routineBody =
     ParserRuleContext 12 (OtherRule 0) (tok 2 8 ''{'') (Some (tok 6 0 ''}''))
       [innerDecl, innerStatement, unknownStatement]"

definition routine :: ParseTree where
  "routine =
     ParserRuleContext 10 FunctionDeclaration (tok 2 0 ''fun'') (Some (tok 6 0 ''}''))
       [ParserRuleContext 11 Identifier (tok 2 4 ''f'') (Some (tok 2 4 ''f''))
          [TerminalNode 18 (tok 2 4 ''f'')],
        routineBody]"

definition outerUse :: ParseTree where
  "outerUse = TerminalNode 22 (tok 7 8 ''x'')"

definition outerExpression :: ParseTree where
  "outerExpression =
     ParserRuleContext 26 (OtherRule 1) (tok 7 8 ''x'') (Some (tok 7 8 ''x'')) [outerUse]"

definition outerStatement :: ParseTree where
  "outerStatement =
     ParserRuleContext 21 (OtherRule 2) (tok 7 0 ''val'') (Some (tok 7 8 ''x''))
       [ParserRuleContext 23 VariableDeclaration (tok 7 4 ''y'') (Some (tok 7 4 ''y''))
          [ParserRuleContext 24 SimpleIdentifier (tok 7 4 ''y'') (Some (tok 7 4 ''y''))
             [TerminalNode 25 (tok 7 4 ''y'')]],
        outerExpression]"

definition mainFile :: ParseTree where
  "mainFile =
     ParserRuleContext 0 KotlinFile (tok 1 0 ''val'') (Some (tok 7 8 ''x''))
       [outerDecl, routine, outerStatement]"

definition mainVisitor :: SymbolTableVisitor where
  "mainVisitor = snd (visit mainFile (newSymbolTableVisitor ''file:///ws/main.mykt''))"

definition mainContext :: Context where
  "mainContext = Context mainFile None"

definition routineBodyContext :: Context where
  "routineBodyContext = Context routineBody (Some (Context routine (Some mainContext)))"

definition innerUseContext :: Context where
  "innerUseContext =
     Context innerUse (Some (Context innerStatement (Some routineBodyContext)))"

definition unknownUseContext :: Context where
  "unknownUseContext =
     Context unknownUse (Some (Context unknownStatement (Some routineBodyContext)))"

definition outerUseContext :: Context where
  "outerUseContext =
     Context outerUse
       (Some (Context outerExpression (Some (Context outerStatement (Some mainContext)))))"

text \<open>
  The root scope of the sample and its table, as symbol references.
\<close>

definition rootScopeRef :: SymbolRef where
  "rootScopeRef =
     SymbolRef (children (symbolTable mainVisitor) ! 0)
       (Some (SymbolRef (symbolTable mainVisitor) None))"








text \<open>
  A world for the server: beside \<^verbatim>\<open>/ws/main.mykt\<close> with the sample program lies
  \<^verbatim>\<open>/ws/lib.mykt\<close> with the text \<^verbatim>\<open>fun helper() {}\<close>, and nothing else. The
  import headers are those of \<^verbatim>\<open>import lib\<close> and \<^verbatim>\<open>import missing\<close>. The
  token position at line 4, column 4 of the sample is the use of \<open>x\<close> in the routine.
\<close>

definition mainUri :: string where
  "mainUri = ''file:///ws/main.mykt''"

definition mainText :: string where
  "mainText =
     ''val x = 1'' @ [CHR 0x0A] @ ''fun f() {'' @ [CHR 0x0A] @ ''    val x = 2'' @ [CHR 0x0A] @
     ''    x'' @ [CHR 0x0A] @ ''    z'' @ [CHR 0x0A] @ ''}'' @ [CHR 0x0A] @ ''val y = x''"

definition libFile :: ParseTree where
  "libFile =
     ParserRuleContext 100 KotlinFile (tok 1 0 ''fun'') (Some (tok 1 14 ''}''))
       [ParserRuleContext 101 FunctionDeclaration (tok 1 0 ''fun'') (Some (tok 1 14 ''}''))
          [ParserRuleContext 102 Identifier (tok 1 4 ''helper'') (Some (tok 1 4 ''helper''))
             [TerminalNode 103 (tok 1 4 ''helper'')]]]"

definition importLib :: ParseTree where
  "importLib =
     ParserRuleContext 30 ImportHeader (tok 1 0 ''import'') (Some (tok 1 7 ''lib''))
       [TerminalNode 31 (tok 1 0 ''import''),
        ParserRuleContext 32 Identifier (tok 1 7 ''lib'') (Some (tok 1 7 ''lib''))
          [TerminalNode 33 (tok 1 7 ''lib'')]]"

definition importMissing :: ParseTree where
  "importMissing =
     ParserRuleContext 34 ImportHeader (tok 2 0 ''import'') (Some (tok 2 7 ''missing''))
       [TerminalNode 35 (tok 2 0 ''import''),
        ParserRuleContext 36 Identifier (tok 2 7 ''missing'') (Some (tok 2 7 ''missing''))
          [TerminalNode 37 (tok 2 7 ''missing'')]]"

definition sampleEnv :: Env where
  "sampleEnv =
     \<lparr> existsSync = (\<lambda>p. p = ''/ws/lib.mykt''),
       readFileSync =
         (\<lambda>p. if p = ''/ws/lib.mykt'' then Inr ''fun helper() {}'' else Inl ReadFailure),
       fileUriToPath = (\<lambda>u. Inr (drop 7 u)),
       decodeURIComponent = (\<lambda>p. Inr p),
       isAbsolute = (\<lambda>p. startsWith p ''/''),
       resolve = (\<lambda>p. ''/ws/'' @ p),
       kotlinFile =
         (\<lambda>txt. if txt = ''fun helper() {}'' then libFile
                else if txt = mainText then mainFile
                else ParserRuleContext 0 KotlinFile (tok 1 0 ''<EOF>'') (Some (tok 1 0 ''<EOF>'')) []),
       importHeader = (\<lambda>t. None),
       computeTokenPosition =
         (\<lambda>t s p. if t = mainFile \<and> p = \<lparr> pos_line = 4, character = 4 \<rparr>
                   then Some \<lparr> positionContext = Some innerUseContext \<rparr>
                   else None) \<rparr>"

definition libIdentifier :: ParseTree where
  "libIdentifier =
     ParserRuleContext 32 Identifier (tok 1 7 ''lib'') (Some (tok 1 7 ''lib''))
       [TerminalNode 33 (tok 1 7 ''lib'')]"

definition libVisitor :: SymbolTableVisitor where
  "libVisitor =
     fst (processImport sampleEnv ''/ws/lib.mykt''
            ((newSymbolTableVisitor mainUri)\<lparr>documentUri := ''file:///ws/lib.mykt''\<rparr>, []))"








text \<open>
  The sample document before it was ever parsed, and the same document carrying a
  cache that belongs to another text.
\<close>

definition freshDocument :: TextDocument where
  "freshDocument =
     \<lparr> uri = mainUri, getText = mainText, parser = None, parseTree = None,
       symbolTableVisitor = None \<rparr>"

definition staleDocument :: TextDocument where
  "staleDocument =
     \<lparr> uri = mainUri, getText = mainText,
       parser = Some (KotlinParser ''fun helper() {}''),
       parseTree = Some libFile,
       symbolTableVisitor = Some libVisitor \<rparr>"

section \<open>Properties\<close>

subsection \<open>The range of a node\<close>

text \<open>
  C8. A rule context whose start token is at line \<open>line s\<close> (counted from 1),
  column \<open>charPositionInLine s\<close>, and whose stop token \<open>e\<close> has a text of length
  \<open>length txt\<close>, gets the range from (line of \<open>s\<close> minus 1, column of \<open>s\<close>) to
  (line of \<open>e\<close> minus 1, column of \<open>e\<close> plus the length of its text); for a
  terminal its one token is both start and stop.
\<close>

theorem getRange_zero_based:
  "(tokenText e = Some txt \<longrightarrow>
      getRange (ParserRuleContext i k s (Some e) cs) =
        Inr \<lparr> range_start = \<lparr> pos_line = line s - 1, character = charPositionInLine s \<rparr>,
              range_end = \<lparr> pos_line = line e - 1,
                            character = charPositionInLine e + int (length txt) \<rparr> \<rparr>) \<and>
   (tokenText t = Some txt' \<longrightarrow>
      getRange (TerminalNode j t) =
        Inr \<lparr> range_start = \<lparr> pos_line = line t - 1, character = charPositionInLine t \<rparr>,
              range_end = \<lparr> pos_line = line t - 1,
                            character = charPositionInLine t + int (length txt') \<rparr> \<rparr>)"
  by (simp add: getRange_def)

theorem getRange_zero_based_witness:
  "getRange routine =
     Inr \<lparr> range_start = \<lparr> pos_line = 1, character = 0 \<rparr>,
           range_end = \<lparr> pos_line = 5, character = 1 \<rparr> \<rparr> \<and>
   getRange innerUse =
     Inr \<lparr> range_start = \<lparr> pos_line = 3, character = 4 \<rparr>,
           range_end = \<lparr> pos_line = 3, character = 5 \<rparr> \<rparr>"
  using getRange_zero_based [of "tok 6 0 ''}''" "''}''" 10 FunctionDeclaration
      "tok 2 0 ''fun''"
      "[ParserRuleContext 11 Identifier (tok 2 4 ''f'') (Some (tok 2 4 ''f''))
          [TerminalNode 18 (tok 2 4 ''f'')],
        routineBody]"
      "tok 4 4 ''x''" "''x''" 17]
  by (simp add: routine_def innerUse_def tok_def)





subsection \<open>The lookup\<close>

lemma skipToScoped_None:
  "skipToScoped sc = None \<longleftrightarrow> (\<forall>s\<in>set (scopeChain sc). \<not> instanceofScopedSymbol (kind s))"
  by (induction sc rule: skipToScoped.induct) auto

lemma skipToScoped_Some:
  "skipToScoped sc = Some r \<Longrightarrow>
     instanceofScopedSymbol (kind (self r)) \<and>
     (\<exists>pre. scopeChain sc = pre @ scopeChain (Some r) \<and>
        (\<forall>s\<in>set pre. \<not> instanceofScopedSymbol (kind s)))"
proof (induction sc rule: skipToScoped.induct)
  case 1
  then show ?case by simp
next
  case (2 s p)
  show ?case
  proof (cases "instanceofScopedSymbol (kind s)")
    case True
    with 2 show ?thesis by auto
  next
    case False
    with 2 obtain pre where "instanceofScopedSymbol (kind (self r))"
      "scopeChain p = pre @ scopeChain (Some r)" "\<forall>s\<in>set pre. \<not> instanceofScopedSymbol (kind s)"
      by auto
    with False have "scopeChain (Some (SymbolRef s p)) = (s # pre) @ scopeChain (Some r) \<and>
        (\<forall>s\<in>set (s # pre). \<not> instanceofScopedSymbol (kind s))" by simp
    with \<open>instanceofScopedSymbol (kind (self r))\<close> show ?thesis by blast
  qed
qed

lemma scopeChain_Some: "scopeChain (Some r) = self r # scopeChain (parent r)"
  by (cases r) simp

lemma findDeclaration_None_iff:
  "findDeclaration nm sc = None \<longleftrightarrow>
     (\<forall>s\<in>set (scopeChain sc). instanceofScopedSymbol (kind s) \<longrightarrow> \<not> firstLocated nm s)"
proof (induction nm sc rule: findDeclaration.induct)
  case (1 nm sc)
  show ?case
  proof (cases "skipToScoped sc")
    case None
    then have "findDeclaration nm sc = None"
      by (simp add: findDeclaration.simps[of nm sc])
    moreover from None have "\<forall>s\<in>set (scopeChain sc). \<not> instanceofScopedSymbol (kind s)"
      by (simp add: skipToScoped_None)
    ultimately show ?thesis by simp
  next
    case (Some r)
    from skipToScoped_Some[OF Some] obtain pre where
      r: "instanceofScopedSymbol (kind (self r))" and
      ch: "scopeChain sc = pre @ self r # scopeChain (parent r)" and
      pre: "\<forall>s\<in>set pre. \<not> instanceofScopedSymbol (kind s)"
      by (auto simp: scopeChain_Some)
    have split: "(\<forall>s\<in>set (scopeChain sc). instanceofScopedSymbol (kind s) \<longrightarrow> \<not> firstLocated nm s)
        \<longleftrightarrow> \<not> firstLocated nm (self r) \<and>
          (\<forall>s\<in>set (scopeChain (parent r)). instanceofScopedSymbol (kind s) \<longrightarrow> \<not> firstLocated nm s)"
      using r pre by (auto simp: ch)
    show ?thesis
    proof (cases "firstLocated nm (self r)")
      case True
      then have "findDeclaration nm sc \<noteq> None"
        using Some by (auto simp: findDeclaration.simps[of nm sc] firstLocated_def split: option.splits)
      with True split show ?thesis by blast
    next
      case False
      have e1: "findDeclaration nm sc = findDeclaration nm (parent r)"
        using Some False by (auto simp: findDeclaration.simps[of nm sc] firstLocated_def split: option.splits)
      have e2: "findDeclaration nm (parent r) = None \<longleftrightarrow>
          (\<forall>s\<in>set (scopeChain (parent r)). instanceofScopedSymbol (kind s) \<longrightarrow> \<not> firstLocated nm s)"
      proof (cases "List.find (\<lambda>s. name s = nm) (children (self r))")
        case None
        from 1(1)[OF Some None] show ?thesis .
      next
        case (Some c)
        with False have "\<not> location c \<noteq> None" by (simp add: firstLocated_def)
        from 1(2)[OF \<open>skipToScoped sc = Some r\<close> Some this] show ?thesis .
      qed
      show ?thesis unfolding split e1 e2 using False by simp
    qed
  qed
qed

lemma find_name: "List.find (\<lambda>s. name s = nm) cs = Some c \<Longrightarrow> name c = nm \<and> c \<in> set cs"
  by (induction cs) (auto split: if_splits)


lemma firstLocated_child:
  "firstLocated nm s \<Longrightarrow> \<exists>c\<in>set (children s). name c = nm"
  by (auto simp: firstLocated_def split: option.splits dest: find_name)

lemma mainVisitor_value:
  "mainVisitor =
     \<lparr> documentUri = ''file:///ws/main.mykt'',
       symbolTable =
         Symbol [] (SymbolTable False) None None
           [Symbol [] ScopedSymbol None None
              [Symbol ''x'' VariableSymbol None
                 (Some \<lparr> targetUri = ''file:///ws/main.mykt'',
                     targetRange = \<lparr> range_start = \<lparr> pos_line = 0, character = 4 \<rparr>,
                                     range_end = \<lparr> pos_line = 0, character = 5 \<rparr> \<rparr>,
                     targetSelectionRange = \<lparr> range_start = \<lparr> pos_line = 0, character = 4 \<rparr>,
                                     range_end = \<lparr> pos_line = 0, character = 5 \<rparr> \<rparr>,
                     originSelectionRange = None \<rparr>) [],
               Symbol ''f'' RoutineSymbol (Some 10)
                 (Some \<lparr> targetUri = ''file:///ws/main.mykt'',
                     targetRange = \<lparr> range_start = \<lparr> pos_line = 1, character = 0 \<rparr>,
                                     range_end = \<lparr> pos_line = 5, character = 1 \<rparr> \<rparr>,
                     targetSelectionRange = \<lparr> range_start = \<lparr> pos_line = 1, character = 4 \<rparr>,
                                     range_end = \<lparr> pos_line = 1, character = 5 \<rparr> \<rparr>,
                     originSelectionRange = None \<rparr>)
                 [Symbol ''x'' VariableSymbol None
                    (Some \<lparr> targetUri = ''file:///ws/main.mykt'',
                        targetRange = \<lparr> range_start = \<lparr> pos_line = 2, character = 8 \<rparr>,
                                        range_end = \<lparr> pos_line = 2, character = 9 \<rparr> \<rparr>,
                        targetSelectionRange = \<lparr> range_start = \<lparr> pos_line = 2, character = 8 \<rparr>,
                                        range_end = \<lparr> pos_line = 2, character = 9 \<rparr> \<rparr>,
                        originSelectionRange = None \<rparr>) []],
               Symbol ''y'' VariableSymbol None
                 (Some \<lparr> targetUri = ''file:///ws/main.mykt'',
                     targetRange = \<lparr> range_start = \<lparr> pos_line = 6, character = 4 \<rparr>,
                                     range_end = \<lparr> pos_line = 6, character = 5 \<rparr> \<rparr>,
                     targetSelectionRange = \<lparr> range_start = \<lparr> pos_line = 6, character = 4 \<rparr>,
                                     range_end = \<lparr> pos_line = 6, character = 5 \<rparr> \<rparr>,
                     originSelectionRange = None \<rparr>) []]],
       scope = [0] \<rparr>"
  by code_simp

lemma getScope_no_anchor:
  "\<forall>n\<in>set (contextChain c). symbolWithContext table (nodeId n) = None \<Longrightarrow>
     getScope c table = None"
  by (induction c table rule: getScope.induct) auto

text \<open>
  C1. On the sample program, which declares \<open>x\<close> at file scope and again in the body
  of \<open>f\<close>: the definition of the use of \<open>x\<close> inside \<open>f\<close> is the inner declaration
  (line 3 of the file, line 2 counted from 0), found in the scope of \<open>f\<close> before the
  file scope is looked at. The use of \<open>x\<close> in the last line, outside \<open>f\<close>, gets no
  definition at all, although the file scope declares \<open>x\<close>: there \<^verbatim>\<open>getScope\<close>
  yields \<^verbatim>\<open>undefined\<close> and \<^verbatim>\<open>findDeclaration\<close> gives up at once.
\<close>

theorem shadowing_example:
  "definitionAt (Some \<lparr> positionContext = Some innerUseContext \<rparr>) (symbolTable mainVisitor) =
     Inr (Some \<lparr> targetUri = ''file:///ws/main.mykt'',
                 targetRange = \<lparr> range_start = \<lparr> pos_line = 2, character = 8 \<rparr>,
                                 range_end = \<lparr> pos_line = 2, character = 9 \<rparr> \<rparr>,
                 targetSelectionRange = \<lparr> range_start = \<lparr> pos_line = 2, character = 8 \<rparr>,
                                 range_end = \<lparr> pos_line = 2, character = 9 \<rparr> \<rparr>,
                 originSelectionRange =
                   Some \<lparr> range_start = \<lparr> pos_line = 3, character = 4 \<rparr>,
                          range_end = \<lparr> pos_line = 3, character = 5 \<rparr> \<rparr> \<rparr>) \<and>
   definitionAt (Some \<lparr> positionContext = Some outerUseContext \<rparr>) (symbolTable mainVisitor) =
     Inr None"
  by code_simp

text \<open>
  C2. On the sample program, no ancestor of the use of \<open>x\<close> in the last line is the
  anchor of a scope. \<^verbatim>\<open>getScope\<close> yields \<^verbatim>\<open>undefined\<close> for it, not the root
  scope, and the lookup reports no result, while the root scope holds a symbol \<open>x\<close>
  with a location: the root scope is not searched.
\<close>

theorem no_anchor_example:
  "getScope (Some outerUseContext) (symbolTable mainVisitor) = None \<and>
   findDeclaration (treeText (node outerUseContext))
     (getScope (Some outerUseContext) (symbolTable mainVisitor)) = None \<and>
   map (\<lambda>c. (name c, location c \<noteq> None)) (children (self rootScopeRef)) =
     [(''x'', True), (''f'', True), (''y'', True)]"
  by code_simp

text \<open>
  C4. When no scoped symbol on the scope chain of an identifier, from the scope
  \<^verbatim>\<open>getScope\<close> finds up to the table, has a child with the text of the identifier as
  its name, \<^verbatim>\<open>findDeclaration\<close> returns \<^verbatim>\<open>undefined\<close>, and the definition
  handler returns \<^verbatim>\<open>undefined\<close> without throwing.
\<close>

theorem lookup_no_match:
  assumes "positionContext pos = Some ctx"
    and "\<forall>s\<in>set (scopeChain (getScope (Some ctx) table)).
           instanceofScopedSymbol (kind s) \<longrightarrow>
             (\<forall>c\<in>set (children s). name c \<noteq> treeText (node ctx))"
  shows "findDeclaration (treeText (node ctx)) (getScope (Some ctx) table) = None \<and>
         definitionAt (Some pos) table = Inr None"
proof -
  have none: "findDeclaration (treeText (node ctx)) (getScope (Some ctx) table) = None"
    unfolding findDeclaration_None_iff
    using assms(2) firstLocated_child by blast
  then have "definitionAt (Some pos) table = Inr None"
    using assms(1) by (simp add: definitionAt_def)
  with none show ?thesis by simp
qed

theorem lookup_no_match_witness:
  "findDeclaration ''z'' (getScope (Some unknownUseContext) (symbolTable mainVisitor)) = None \<and>
   definitionAt (Some \<lparr> positionContext = Some unknownUseContext \<rparr>) (symbolTable mainVisitor)
     = Inr None"
proof -
  have h: "\<forall>s\<in>set (scopeChain (getScope (Some unknownUseContext) (symbolTable mainVisitor))).
           instanceofScopedSymbol (kind s) \<longrightarrow>
             (\<forall>c\<in>set (children s). name c \<noteq> treeText (node unknownUseContext))"
    by code_simp
  have t: "treeText (node unknownUseContext) = ''z''" by code_simp
  show ?thesis
    using lookup_no_match [of "\<lparr> positionContext = Some unknownUseContext \<rparr>" unknownUseContext
        "symbolTable mainVisitor", OF _ h]
    by (simp add: t)
qed






subsection \<open>The visitor\<close>

lemma locations_children:
  "c \<in> set (children t) \<Longrightarrow> set (locations c) \<subseteq> set (locations t)"
  by (cases t) auto

lemma locations_list_update:
  "i < length cs \<Longrightarrow>
     (\<Union>c\<in>set (cs[i := y]). set (locations c)) \<subseteq> (\<Union>c\<in>set cs. set (locations c)) \<union> set (locations y)"
  using set_update_subset_insert [of cs i y] by auto

lemma updateAt_locations:
  assumes "\<And>s. set (locations (f s)) \<subseteq> set (locations s) \<union> X"
  shows "set (locations (updateAt p f t)) \<subseteq> set (locations t) \<union> X"
proof (induction p arbitrary: t)
  case Nil
  then show ?case using assms by simp
next
  case (Cons i p)
  obtain n k c l cs where t: "t = Symbol n k c l cs" by (cases t)
  show ?case
  proof (cases "i < length cs")
    case False
    with t show ?thesis by simp
  next
    case True
    let ?y = "updateAt p f (cs ! i)"
    have "set (locations ?y) \<subseteq> set (locations (cs ! i)) \<union> X" by (rule Cons.IH)
    moreover have "set (locations (cs ! i)) \<subseteq> (\<Union>c\<in>set cs. set (locations c))"
      using True by (metis UN_upper nth_mem)
    ultimately have "set (locations ?y) \<subseteq> (\<Union>c\<in>set cs. set (locations c)) \<union> X" by blast
    with locations_list_update [OF True, of ?y]
    have "(\<Union>c\<in>set (cs[i := ?y]). set (locations c)) \<subseteq> (\<Union>c\<in>set cs. set (locations c)) \<union> X"
      by blast
    with t True show ?thesis by (auto split: option.splits)
  qed
qed

lemma pushChild_locations:
  "set (locations (pushChild (Symbol nm k None None []) s)) \<subseteq> set (locations s) \<union> X"
  by (cases s) (auto simp: pushChild_def)

lemma setContext_locations:
  "set (locations (setContext c s)) \<subseteq> set (locations s) \<union> X"
  by (cases s) (auto simp: setContext_def)

lemma setLocation_locations:
  "targetUri l = u \<Longrightarrow>
     set (locations (setLocation l s)) \<subseteq> set (locations s) \<union> {l. targetUri l = u}"
  by (cases s) (auto simp: setLocation_def)


lemma frame_refl: "frame v v"
  by (simp add: frame_def)

lemma frame_trans: "frame a b \<Longrightarrow> frame b c \<Longrightarrow> frame a c"
  by (auto simp: frame_def)

lemma addSymbol_locations:
  "addSymbol T p (Symbol nm k None None []) = Inr T' \<Longrightarrow>
     set (locations T') \<subseteq> set (locations T) \<union> X"
  using updateAt_locations [of "pushChild (Symbol nm k None None [])" X p T]
    pushChild_locations [of nm k _ X]
  by (auto simp: addSymbol_def split: option.splits if_splits)

lemma addNewSymbolOfType_result:
  "addNewSymbolOfType T k (Some p) nm = Inr (T', q) \<Longrightarrow>
     butlast q = p \<and> set (locations T') \<subseteq> set (locations T) \<union> X"
  using addSymbol_locations [of T p nm k T' X]
  by (auto simp: addNewSymbolOfType_def split: sum.splits)

lemma registerDeclaration_frame:
  "frame v (snd (registerDeclaration q tree dn v))"
proof -
  have "set (locations (updateAt q (setLocation \<lparr> targetUri = documentUri v, targetRange = r1,
           targetSelectionRange = r2, originSelectionRange = None \<rparr>) (symbolTable v)))
        \<subseteq> set (locations (symbolTable v)) \<union> {l. targetUri l = documentUri v}" for r1 r2
    by (rule updateAt_locations) (rule setLocation_locations, simp)
  then show ?thesis
    by (auto simp: registerDeclaration_def frame_def split: sum.splits)
qed

lemma withScope_frame:
  assumes "\<And>w. frame w (snd (action w))"
  shows "frame v (snd (withScope tree k nm action v))"
proof (cases "addNewSymbolOfType (symbolTable v) k (Some (scope v)) nm")
  case (Inl e)
  then show ?thesis by (simp add: withScope_def frame_refl)
next
  case (Inr res)
  obtain T' q where res: "res = (T', q)" by (cases res)
  from Inr res addNewSymbolOfType_result [of "symbolTable v" k "scope v" nm T' q "{}"]
  have q: "butlast q = scope v" and T': "set (locations T') \<subseteq> set (locations (symbolTable v))"
    by auto
  let ?v1 = "v\<lparr>symbolTable := updateAt q (setContext (nodeId tree)) T', scope := q\<rparr>"
  have "set (locations (updateAt q (setContext (nodeId tree)) T')) \<subseteq> set (locations T') \<union> {}"
    by (rule updateAt_locations) (rule setContext_locations)
  with T' have l1: "set (locations (symbolTable ?v1)) \<subseteq> set (locations (symbolTable v))"
    by auto
  from assms [of ?v1] have f: "frame ?v1 (snd (action ?v1))" .
  obtain r v2 where a: "action ?v1 = (r, v2)" by (cases "action ?v1")
  with f have "frame ?v1 v2" by simp
  with l1 q have "frame v (v2\<lparr>scope := butlast q\<rparr>)"
    by (auto simp: frame_def)
  with Inr res a show ?thesis by (simp add: withScope_def)
qed

lemma withDeclaration_frame:
  assumes "\<And>w. frame w (snd (action w))"
  shows "frame v (snd (withDeclaration d dn k nm action v))"
  unfolding withDeclaration_def
proof (rule withScope_frame)
  fix w
  obtain r w' where rd: "registerDeclaration (scope w) d dn w = (r, w')"
    by (cases "registerDeclaration (scope w) d dn w")
  with registerDeclaration_frame [of w "scope w" d dn] have f1: "frame w w'" by simp
  show "frame w (snd (case registerDeclaration (scope w) d dn w of
              (None, w') \<Rightarrow> action w' | (Some e, w') \<Rightarrow> (Some e, w')))"
  proof (cases r)
    case None
    with rd f1 assms [of w'] show ?thesis by (auto intro: frame_trans)
  next
    case (Some e)
    with rd f1 show ?thesis by simp
  qed
qed

lemma visit_frame:
  "frame v (snd (visit t v))"
  and visitNodes_frame: "frame v (snd (visitNodes ts v))"
proof (induction t v and ts v rule: visit_visitNodes.induct)
  case (1 i t v)
  show ?case by (simp add: frame_refl)
next
  case (2 i k s e cs v)
  show ?case
  proof (cases "k = VariableDeclaration")
    case True
    show ?thesis
    proof (cases "getRuleContext SimpleIdentifier (ParserRuleContext i k s e cs)")
      case (Inl err)
      with True show ?thesis by (simp add: frame_refl)
    next
      case (Inr b)
      show ?thesis
      proof (cases "addNewSymbolOfType (symbolTable v) VariableSymbol (Some (scope v)) (treeText b)")
        case (Inl err)
        with True \<open>getRuleContext SimpleIdentifier (ParserRuleContext i k s e cs) = Inr b\<close>
        show ?thesis by (simp add: frame_refl)
      next
        case ba: (Inr ba)
        obtain x y where xy: "ba = (x, y)" by (cases ba)
        obtain xa ya where reg: "registerDeclaration y (ParserRuleContext i k s e cs) b
            (v\<lparr>symbolTable := x\<rparr>) = (xa, ya)"
          by (cases "registerDeclaration y (ParserRuleContext i k s e cs) b (v\<lparr>symbolTable := x\<rparr>)")
        from ba xy addNewSymbolOfType_result [of "symbolTable v" VariableSymbol "scope v" "treeText b" x y "{}"]
        have "set (locations x) \<subseteq> set (locations (symbolTable v))" by auto
        then have f0: "frame v (v\<lparr>symbolTable := x\<rparr>)" by (auto simp: frame_def)
        from registerDeclaration_frame [of "v\<lparr>symbolTable := x\<rparr>" y "ParserRuleContext i k s e cs" b] reg
        have "frame (v\<lparr>symbolTable := x\<rparr>) ya" by simp
        with f0 have f1: "frame v ya" by (rule frame_trans)
        show ?thesis
        proof (cases xa)
          case None
          from "2.IH"(1) [OF True Inr ba xy [symmetric] reg [symmetric] None]
          have "frame ya (snd (visitNodes cs ya))" .
          with f1 have "frame v (snd (visitNodes cs ya))" by (rule frame_trans)
          with True Inr ba xy reg None show ?thesis by simp
        next
          case (Some err)
          with True Inr ba xy reg f1 show ?thesis by simp
        qed
      qed
    qed
  next
    case False
    show ?thesis
    proof (cases "k = FunctionDeclaration")
      case True
      show ?thesis
      proof (cases "getRuleContext Identifier (ParserRuleContext i k s e cs)")
        case (Inl err)
        with False True show ?thesis by (simp add: frame_refl)
      next
        case (Inr b)
        have "frame v (snd (withDeclaration (ParserRuleContext i k s e cs) b RoutineSymbol
                 (treeText b) (visitNodes cs) v))"
          by (rule withDeclaration_frame) (rule "2.IH"(2) [OF False True Inr])
        with False True Inr show ?thesis by simp
      qed
    next
      case nf: False
      from "2.IH"(3) [OF False nf] False nf show ?thesis by simp
    qed
  qed
next
  case (3 v)
  show ?case by (simp add: frame_refl)
next
  case (4 c cs v)
  obtain x y where xy: "visit c v = (x, y)" by (cases "visit c v")
  with "4.IH"(1) have f1: "frame v y" by simp
  show ?case
  proof (cases x)
    case None
    from "4.IH"(2) [OF xy [symmetric] None] f1 have "frame v (snd (visitNodes cs y))"
      by (blast intro: frame_trans)
    with xy None show ?thesis by simp
  next
    case (Some err)
    with xy f1 show ?thesis by simp
  qed
qed

text \<open>
  The visitor keeps the names in each scope of its table unique, so a scope chain that
  \<^verbatim>\<open>getScope\<close> finds in such a table has at most one symbol of any name that is
  not empty in each of its scopes.
\<close>

lemma updateAt_name:
  "(\<And>s. name (f s) = name s) \<Longrightarrow> name (updateAt p f t) = name t"
  by (cases p; cases t) simp_all

lemma updateAt_kind:
  "(\<And>s. kind (f s) = kind s) \<Longrightarrow> kind (updateAt p f t) = kind t"
  by (cases p; cases t) simp_all

lemma allowDuplicateSymbols_kind:
  "kind t' = kind t \<Longrightarrow> allowDuplicateSymbols t' = allowDuplicateSymbols t"
  by (cases t; cases t'; cases "kind t") auto

lemma updateAt_unique_at:
  assumes "\<And>s. name (f s) = name s"
  shows "symbolAt t p = Some sc \<Longrightarrow> uniqueNames t \<Longrightarrow> (uniqueNames sc \<Longrightarrow> uniqueNames (f sc)) \<Longrightarrow>
         uniqueNames (updateAt p f t)"
proof (induction p arbitrary: t)
  case Nil
  then show ?case by simp
next
  case (Cons i p)
  obtain n k c l cs where t: "t = Symbol n k c l cs" by (cases t)
  from Cons.prems(1) t have i: "i < length cs" and at: "symbolAt (cs ! i) p = Some sc"
    by (auto split: if_splits)
  from Cons.prems(2) t i have ui: "uniqueNames (cs ! i)" by simp
  let ?y = "updateAt p f (cs ! i)"
  from Cons.IH [OF at ui Cons.prems(3)] have uy: "uniqueNames ?y" .
  have ny: "name ?y = name (cs ! i)" using assms by (rule updateAt_name)
  have "map name (cs[i := ?y]) = map name cs"
    using i ny by (simp add: map_update list_update_same_conv)
  moreover have "\<forall>c\<in>set (cs[i := ?y]). uniqueNames c"
    using uy Cons.prems(2) t set_update_subset_insert [of cs i ?y] by auto
  ultimately show ?case using t i Cons.prems(2) by simp
qed

lemma updateAt_unique:
  assumes "\<And>s. name (f s) = name s" and "\<And>s. uniqueNames s \<Longrightarrow> uniqueNames (f s)"
  shows "uniqueNames t \<Longrightarrow> uniqueNames (updateAt p f t)"
proof (induction p arbitrary: t)
  case Nil
  then show ?case using assms(2) by simp
next
  case (Cons i p)
  obtain n k c l cs where t: "t = Symbol n k c l cs" by (cases t)
  show ?case
  proof (cases "i < length cs")
    case False
    with t Cons.prems show ?thesis by simp
  next
    case i: True
    from Cons.prems t i have ui: "uniqueNames (cs ! i)" by simp
    let ?y = "updateAt p f (cs ! i)"
    from Cons.IH [OF ui] have uy: "uniqueNames ?y" .
    have ny: "name ?y = name (cs ! i)" using assms(1) by (rule updateAt_name)
    have "map name (cs[i := ?y]) = map name cs"
      using i ny by (simp add: map_update list_update_same_conv)
    moreover have "\<forall>c\<in>set (cs[i := ?y]). uniqueNames c"
      using uy Cons.prems t set_update_subset_insert [of cs i ?y] by auto
    ultimately show ?thesis using t i Cons.prems by simp
  qed
qed

lemma pushChild_unique:
  "uniqueNames sc \<Longrightarrow> nm = [] \<or> nm \<notin> name ` set (children sc) \<Longrightarrow>
     uniqueNames (pushChild (Symbol nm k None None []) sc)"
  by (cases sc) (auto simp: pushChild_def)

lemma addNewSymbolOfType_unique:
  assumes "addNewSymbolOfType T k (Some p) nm = Inr (T', q)"
    and "uniqueNames T" and "\<not> allowDuplicateSymbols T"
  shows "uniqueNames T' \<and> \<not> allowDuplicateSymbols T'"
proof -
  from assms(1) obtain sc where at: "symbolAt T p = Some sc"
    and T': "T' = updateAt p (pushChild (Symbol nm k None None [])) T"
    and nd: "\<not> (\<exists>child\<in>set (children sc). nm \<noteq> [] \<and> name child = nm)"
    using assms(3)
    by (auto simp: addNewSymbolOfType_def addSymbol_def split: option.splits if_splits)
  have n: "name (pushChild (Symbol nm k None None []) s) = name s" for s
    by (simp add: pushChild_def)
  have kd: "kind (pushChild (Symbol nm k None None []) s) = kind s" for s
    by (simp add: pushChild_def)
  from nd have "nm = [] \<or> nm \<notin> name ` set (children sc)" by auto
  then have "uniqueNames sc \<Longrightarrow> uniqueNames (pushChild (Symbol nm k None None []) sc)"
    by (rule pushChild_unique [rotated])
  from updateAt_unique_at [of "pushChild (Symbol nm k None None [])", OF n at assms(2) this]
  have "uniqueNames T'" by (simp add: T')
  moreover have "kind T' = kind T" unfolding T' using kd by (rule updateAt_kind)
  ultimately show ?thesis using assms(3) allowDuplicateSymbols_kind by blast
qed

lemma setLocation_table:
  "uniqueNames T \<Longrightarrow> \<not> allowDuplicateSymbols T \<Longrightarrow>
     uniqueNames (updateAt q (setLocation l) T) \<and> \<not> allowDuplicateSymbols (updateAt q (setLocation l) T)"
proof -
  assume u: "uniqueNames T" and a: "\<not> allowDuplicateSymbols T"
  have n: "name (setLocation l s) = name s" for s by (simp add: setLocation_def)
  have k: "kind (setLocation l s) = kind s" for s by (simp add: setLocation_def)
  have p: "uniqueNames s \<Longrightarrow> uniqueNames (setLocation l s)" for s
    by (cases s) (simp add: setLocation_def)
  from updateAt_unique [of "setLocation l", OF n p u] have "uniqueNames (updateAt q (setLocation l) T)" .
  moreover have "kind (updateAt q (setLocation l) T) = kind T" using k by (rule updateAt_kind)
  ultimately show ?thesis using a allowDuplicateSymbols_kind by blast
qed

lemma setContext_table:
  "uniqueNames T \<Longrightarrow> \<not> allowDuplicateSymbols T \<Longrightarrow>
     uniqueNames (updateAt q (setContext c) T) \<and> \<not> allowDuplicateSymbols (updateAt q (setContext c) T)"
proof -
  assume u: "uniqueNames T" and a: "\<not> allowDuplicateSymbols T"
  have n: "name (setContext c s) = name s" for s by (simp add: setContext_def)
  have k: "kind (setContext c s) = kind s" for s by (simp add: setContext_def)
  have p: "uniqueNames s \<Longrightarrow> uniqueNames (setContext c s)" for s
    by (cases s) (simp add: setContext_def)
  from updateAt_unique [of "setContext c", OF n p u] have "uniqueNames (updateAt q (setContext c) T)" .
  moreover have "kind (updateAt q (setContext c) T) = kind T" using k by (rule updateAt_kind)
  ultimately show ?thesis using a allowDuplicateSymbols_kind by blast
qed

lemma registerDeclaration_noDuplicates:
  "noDuplicates v \<Longrightarrow> noDuplicates (snd (registerDeclaration q tree dn v))"
  using setLocation_table [of "symbolTable v"]
  by (auto simp: registerDeclaration_def noDuplicates_def split: sum.splits)

lemma withScope_noDuplicates:
  assumes "\<And>w. noDuplicates w \<Longrightarrow> noDuplicates (snd (action w))" and "noDuplicates v"
  shows "noDuplicates (snd (withScope tree k nm action v))"
proof (cases "addNewSymbolOfType (symbolTable v) k (Some (scope v)) nm")
  case (Inl e)
  with assms(2) show ?thesis by (simp add: withScope_def)
next
  case (Inr res)
  obtain T' q where res: "res = (T', q)" by (cases res)
  from Inr res assms(2) addNewSymbolOfType_unique [of "symbolTable v" k "scope v" nm T' q]
  have "uniqueNames T' \<and> \<not> allowDuplicateSymbols T'" by (simp add: noDuplicates_def)
  with setContext_table [of T' q "nodeId tree"]
  have "noDuplicates (v\<lparr>symbolTable := updateAt q (setContext (nodeId tree)) T', scope := q\<rparr>)"
    by (simp add: noDuplicates_def)
  from assms(1) [OF this] Inr res show ?thesis
    by (auto simp: withScope_def noDuplicates_def split: prod.splits)
qed

lemma withDeclaration_noDuplicates:
  assumes "\<And>w. noDuplicates w \<Longrightarrow> noDuplicates (snd (action w))" and "noDuplicates v"
  shows "noDuplicates (snd (withDeclaration d dn k nm action v))"
  unfolding withDeclaration_def
proof (rule withScope_noDuplicates [OF _ assms(2)])
  fix w assume w: "noDuplicates w"
  obtain r w' where rd: "registerDeclaration (scope w) d dn w = (r, w')"
    by (cases "registerDeclaration (scope w) d dn w")
  with registerDeclaration_noDuplicates [OF w, of "scope w" d dn] have w': "noDuplicates w'" by simp
  show "noDuplicates (snd (case registerDeclaration (scope w) d dn w of
              (None, w') \<Rightarrow> action w' | (Some e, w') \<Rightarrow> (Some e, w')))"
  proof (cases r)
    case None
    with rd assms(1) [OF w'] show ?thesis by simp
  next
    case (Some e)
    with rd w' show ?thesis by simp
  qed
qed

lemma visit_noDuplicates:
  "noDuplicates v \<Longrightarrow> noDuplicates (snd (visit t v))"
  and visitNodes_noDuplicates: "noDuplicates v \<Longrightarrow> noDuplicates (snd (visitNodes ts v))"
proof (induction t v and ts v rule: visit_visitNodes.induct)
  case (1 i t v)
  then show ?case by simp
next
  case (2 i k s e cs v)
  show ?case
  proof (cases "k = VariableDeclaration")
    case True
    show ?thesis
    proof (cases "getRuleContext SimpleIdentifier (ParserRuleContext i k s e cs)")
      case (Inl err)
      with True "2.prems" show ?thesis by simp
    next
      case (Inr b)
      show ?thesis
      proof (cases "addNewSymbolOfType (symbolTable v) VariableSymbol (Some (scope v)) (treeText b)")
        case (Inl err)
        with True Inr "2.prems" show ?thesis by simp
      next
        case ba: (Inr ba)
        obtain x y where xy: "ba = (x, y)" by (cases ba)
        obtain xa ya where reg: "registerDeclaration y (ParserRuleContext i k s e cs) b
            (v\<lparr>symbolTable := x\<rparr>) = (xa, ya)"
          by (cases "registerDeclaration y (ParserRuleContext i k s e cs) b (v\<lparr>symbolTable := x\<rparr>)")
        from ba xy "2.prems"
          addNewSymbolOfType_unique [of "symbolTable v" VariableSymbol "scope v" "treeText b" x y]
        have "noDuplicates (v\<lparr>symbolTable := x\<rparr>)" by (simp add: noDuplicates_def)
        from registerDeclaration_noDuplicates [OF this, of y "ParserRuleContext i k s e cs" b] reg
        have nya: "noDuplicates ya" by simp
        show ?thesis
        proof (cases xa)
          case None
          from "2.IH"(1) [OF True Inr ba xy [symmetric] reg [symmetric] None nya]
          have "noDuplicates (snd (visitNodes cs ya))" .
          with True Inr ba xy reg None show ?thesis by simp
        next
          case (Some err)
          with True Inr ba xy reg nya show ?thesis by simp
        qed
      qed
    qed
  next
    case False
    show ?thesis
    proof (cases "k = FunctionDeclaration")
      case True
      show ?thesis
      proof (cases "getRuleContext Identifier (ParserRuleContext i k s e cs)")
        case (Inl err)
        with False True "2.prems" show ?thesis by simp
      next
        case (Inr b)
        have "noDuplicates (snd (withDeclaration (ParserRuleContext i k s e cs) b RoutineSymbol
                 (treeText b) (visitNodes cs) v))"
          by (rule withDeclaration_noDuplicates [OF "2.IH"(2) [OF False True Inr] "2.prems"])
        with False True Inr show ?thesis by simp
      qed
    next
      case nf: False
      from "2.IH"(3) [OF False nf "2.prems"] False nf show ?thesis by simp
    qed
  qed
next
  case (3 v)
  then show ?case by simp
next
  case (4 c cs v)
  obtain x y where xy: "visit c v = (x, y)" by (cases "visit c v")
  with "4.IH"(1) [OF "4.prems"] have ny: "noDuplicates y" by simp
  show ?case
  proof (cases x)
    case None
    from "4.IH"(2) [OF xy [symmetric] None ny] xy None show ?thesis by simp
  next
    case (Some err)
    with xy ny show ?thesis by simp
  qed
qed

lemma newSymbolTableVisitor_noDuplicates: "noDuplicates (newSymbolTableVisitor u)"
  by (simp add: noDuplicates_def newSymbolTableVisitor_def)


lemma subtrees_self: "s \<in> subtrees s"
  by (cases s) simp

lemma subtrees_trans: "s \<in> subtrees t \<Longrightarrow> u \<in> subtrees s \<Longrightarrow> u \<in> subtrees t"
  by (induction t) auto

lemma subtrees_children: "s \<in> subtrees t \<Longrightarrow> c \<in> set (children s) \<Longrightarrow> c \<in> subtrees t"
  using subtrees_trans [of s t c] subtrees_self [of c] by (cases s) auto

lemma uniqueNames_subtree: "uniqueNames t \<Longrightarrow> s \<in> subtrees t \<Longrightarrow> uniqueNames s"
  by (induction t) auto

lemma findRecursive_chain:
  "findRecursive ctx p s = Some r \<Longrightarrow> s \<in> subtrees T \<Longrightarrow> set (scopeChain p) \<subseteq> subtrees T \<Longrightarrow>
     set (scopeChain (Some r)) \<subseteq> subtrees T"
  and findRecursiveIn_chain:
  "findRecursiveIn ctx p ss = Some r \<Longrightarrow> set ss \<subseteq> subtrees T \<Longrightarrow> set (scopeChain p) \<subseteq> subtrees T \<Longrightarrow>
     set (scopeChain (Some r)) \<subseteq> subtrees T"
proof (induction ctx p s and ctx p ss rule: findRecursive_findRecursiveIn.induct)
  case (1 ctx p n k c l cs)
  show ?case
  proof (cases "c = Some ctx")
    case True
    with 1 show ?thesis by auto
  next
    case False
    with "1.prems"(1) have k: "instanceofScopedSymbol k"
      and f: "findRecursiveIn ctx (Some (SymbolRef (Symbol n k c l cs) p)) cs = Some r"
      by (auto split: if_splits)
    from "1.prems"(2) have "set cs \<subseteq> subtrees T"
      using subtrees_children [of "Symbol n k c l cs" T] by auto
    moreover from "1.prems"(2,3) have "set (scopeChain (Some (SymbolRef (Symbol n k c l cs) p))) \<subseteq> subtrees T"
      by simp
    ultimately show ?thesis using "1.IH" [OF False k f] by blast
  qed
next
  case (2 ctx p)
  then show ?case by simp
next
  case (3 ctx p s ss)
  show ?case
  proof (cases "findRecursive ctx p s")
    case None
    with 3 show ?thesis by simp
  next
    case (Some r')
    with "3.prems" have "r' = r" by simp
    with Some "3.IH"(1) "3.prems" show ?thesis by simp
  qed
qed

lemma getScope_chain:
  "set (scopeChain (getScope c T)) \<subseteq> subtrees T"
proof (induction c T rule: getScope.induct)
  case (1 T)
  show ?case by simp
next
  case (2 n p T)
  show ?case
  proof (cases "symbolWithContext T (nodeId n)")
    case None
    with 2 show ?thesis by simp
  next
    case (Some r)
    have "set (children T) \<subseteq> subtrees T" using subtrees_children [OF subtrees_self] by auto
    moreover have "set (scopeChain (Some (SymbolRef T None))) \<subseteq> subtrees T"
      by (simp add: subtrees_self)
    ultimately have "set (scopeChain (Some r)) \<subseteq> subtrees T"
      using Some findRecursiveIn_chain [of "nodeId n" "Some (SymbolRef T None)" "children T" r T]
      by (simp add: symbolWithContext_def)
    with Some show ?thesis by simp
  qed
qed

lemma distinct_names_filter:
  "distinct (filter (\<lambda>x. x \<noteq> []) (map name cs)) \<Longrightarrow> nm \<noteq> [] \<Longrightarrow>
     length (filter (\<lambda>c. name c = nm) cs) \<le> 1"
proof (induction cs)
  case Nil
  then show ?case by simp
next
  case (Cons c cs)
  show ?case
  proof (cases "name c = nm")
    case True
    with Cons.prems have "nm \<notin> set (map name cs)" by auto
    then have "filter (\<lambda>c. name c = nm) cs = []" by (auto simp: filter_empty_conv)
    with True show ?thesis by simp
  next
    case False
    with Cons show ?thesis by (auto split: if_splits)
  qed
qed

lemma uniqueNames_children:
  "uniqueNames s \<Longrightarrow> nm \<noteq> [] \<Longrightarrow> length (filter (\<lambda>c. name c = nm) (children s)) \<le> 1"
  using distinct_names_filter [of "children s" nm] by (cases s) simp

lemma built_chain_unique:
  assumes "noDuplicates v" and "nm \<noteq> []"
  shows "\<forall>s\<in>set (scopeChain (getScope c (symbolTable v))). instanceofScopedSymbol (kind s) \<longrightarrow>
           length (filter (\<lambda>c. name c = nm) (children s)) \<le> 1"
proof (intro ballI impI)
  fix s assume "s \<in> set (scopeChain (getScope c (symbolTable v)))"
  with getScope_chain [of c "symbolTable v"] have "s \<in> subtrees (symbolTable v)" by blast
  with assms(1) have "uniqueNames s" by (auto simp: noDuplicates_def intro: uniqueNames_subtree)
  then show "length (filter (\<lambda>c. name c = nm) (children s)) \<le> 1"
    using assms(2) by (rule uniqueNames_children)
qed

text \<open>
  So do the import loop and \<^verbatim>\<open>ensureParsed\<close>: the visitor a freshly parsed
  document gets has unique names in every scope.
\<close>

lemma processImport_noDuplicates:
  "noDuplicates v \<Longrightarrow> noDuplicates (fst (processImport env path (v, msgs)))"
proof (cases "readFileSync env path")
  case (Inl e)
  assume "noDuplicates v"
  with Inl show ?thesis by (simp add: processImport_def)
next
  case (Inr content)
  assume "noDuplicates v"
  from visit_noDuplicates [OF this, of "kotlinFile env content"] Inr show ?thesis
    by (cases "visit (kotlinFile env content) v"; cases "fst (visit (kotlinFile env content) v)")
       (simp_all add: processImport_def)
qed

lemma importLoop_noDuplicates:
  "noDuplicates v \<Longrightarrow> noDuplicates (fst (snd (importLoop env bu bp imps (v, msgs))))"
proof (induction imps arbitrary: v msgs)
  case Nil
  then show ?case by simp
next
  case (Cons imp rest)
  show ?case
  proof (cases "getRuleContext Identifier imp")
    case (Inl e)
    with Cons.prems show ?thesis by simp
  next
    case (Inr ident)
    let ?filename = "treeText ident @ ''.mykt''"
    show ?thesis
    proof (cases "existsSync env (bp @ ?filename)")
      case False
      with Inr Cons.IH [OF Cons.prems] show ?thesis by (simp add: Let_def)
    next
      case True
      let ?w = "v\<lparr>documentUri := bu @ ?filename\<rparr>"
      obtain w' m' where p: "processImport env (bp @ ?filename) (?w, msgs) = (w', m')"
        by (cases "processImport env (bp @ ?filename) (?w, msgs)")
      from Cons.prems have "noDuplicates ?w" by (simp add: noDuplicates_def)
      from processImport_noDuplicates [OF this, of env "bp @ ?filename" msgs] p
      have "noDuplicates w'" by simp
      from Cons.IH [OF this, of m'] True Inr p show ?thesis by (simp add: Let_def)
    qed
  qed
qed

lemma ensureParsed_noDuplicates:
  assumes "parser document = None"
    and "fst (ensureParsed env (document, msgs)) = Inr p"
    and "parsedVisitor p = Some v"
  shows "noDuplicates v"
proof -
  let ?tree = "kotlinFile env (getText document)"
  let ?v0 = "newSymbolTableVisitor (uri document)"
  obtain r1 v1 m1 where imp:
    "(case importHeader env ?tree of
        None \<Rightarrow> (None, (?v0, msgs))
      | Some imps \<Rightarrow> processImports env imps (?v0, msgs)) = (r1, (v1, m1))"
    by (metis prod.exhaust)
  have n1: "noDuplicates v1"
  proof (cases "importHeader env ?tree")
    case None
    with imp newSymbolTableVisitor_noDuplicates [of "uri document"] show ?thesis by auto
  next
    case (Some imps)
    show ?thesis
    proof (cases "ensurePath env (computeBaseUri (documentUri ?v0))")
      case (Inl e)
      with Some imp newSymbolTableVisitor_noDuplicates [of "uri document"] show ?thesis
        by (auto simp: processImports_def Let_def)
    next
      case (Inr bp)
      obtain r u ms where il:
        "importLoop env (computeBaseUri (documentUri ?v0)) bp imps (?v0, msgs) = (r, (u, ms))"
        by (metis prod.exhaust)
      with importLoop_noDuplicates [OF newSymbolTableVisitor_noDuplicates,
          of env "computeBaseUri (documentUri ?v0)" bp imps "uri document" msgs]
      have "noDuplicates u" by simp
      with Some imp Inr il show ?thesis
        by (cases r) (auto simp: processImports_def Let_def noDuplicates_def)
    qed
  qed
  obtain r2 v2 where vis: "visit ?tree v1 = (r2, v2)" by (metis prod.exhaust)
  with visit_noDuplicates [OF n1, of ?tree] have n2: "noDuplicates v2" by simp
  from assms(1,2) imp vis have "p = \<lparr> parsedParser = KotlinParser (getText document),
           parsedParseTree = Some ?tree, parsedVisitor = Some v2 \<rparr>"
    by (cases r1; cases r2; simp add: ensureParsed_def Let_def)
  with assms(3) n2 show ?thesis by simp
qed







subsection \<open>Imports\<close>

lemma importLoop_append:
  "importLoop env bu bp (xs @ ys) st =
     (case importLoop env bu bp xs st of
        (Some e, st') \<Rightarrow> (Some e, st')
      | (None, st') \<Rightarrow> importLoop env bu bp ys st')"
proof (induction xs arbitrary: st)
  case Nil
  show ?case by simp
next
  case (Cons x xs)
  obtain v msgs where st: "st = (v, msgs)" by (cases st)
  show ?case
  proof (cases "getRuleContext Identifier x")
    case (Inl e)
    with st show ?thesis by simp
  next
    case (Inr ident)
    with st Cons.IH show ?thesis by (simp add: Let_def)
  qed
qed

text \<open>
  C5. When the file of an import does not exist, wherever the import stands in the
  list, the loop shows the message \<open>Imported file not found\<close> with the path (through
  \<^verbatim>\<open>showErrorMessage\<close>), leaves the visitor and so the scope tree untouched, does
  not throw, and goes on with the imports that remain. An import list of that import
  alone returns normally with the visitor unchanged and the one message shown.
\<close>

theorem missing_import_skipped:
  assumes "getRuleContext Identifier imp = Inr ident"
    and "\<not> existsSync env (basePath @ treeText ident @ ''.mykt'')"
    and "importLoop env baseUri basePath pre st = (None, (v, msgs))"
  shows "importLoop env baseUri basePath (pre @ imp # rest) st =
           importLoop env baseUri basePath rest
             (v, msgs @ [ShowErrorMessage
                           (''Imported file not found: '' @ basePath @ treeText ident @ ''.mykt'')
                           None]) \<and>
         (ensurePath env (computeBaseUri (documentUri w)) = Inr basePath \<longrightarrow>
            processImports env [imp] (w, m) =
              (None, (w, m @ [ShowErrorMessage
                           (''Imported file not found: '' @ basePath @ treeText ident @ ''.mykt'')
                           None])))"
proof
  show "importLoop env baseUri basePath (pre @ imp # rest) st =
           importLoop env baseUri basePath rest
             (v, msgs @ [ShowErrorMessage
                           (''Imported file not found: '' @ basePath @ treeText ident @ ''.mykt'')
                           None])"
    using assms by (simp add: importLoop_append Let_def)
next
  show "ensurePath env (computeBaseUri (documentUri w)) = Inr basePath \<longrightarrow>
            processImports env [imp] (w, m) =
              (None, (w, m @ [ShowErrorMessage
                           (''Imported file not found: '' @ basePath @ treeText ident @ ''.mykt'')
                           None]))"
    using assms(1,2) by (simp add: processImports_def Let_def)
qed

theorem missing_import_skipped_witness:
  "importLoop sampleEnv ''file:///ws/'' ''/ws/'' [importLib, importMissing, importLib]
       (newSymbolTableVisitor mainUri, []) =
     importLoop sampleEnv ''file:///ws/'' ''/ws/'' [importLib]
       (libVisitor, [ShowErrorMessage ''Imported file not found: /ws/missing.mykt'' None]) \<and>
   processImports sampleEnv [importMissing] (newSymbolTableVisitor mainUri, []) =
     (None, (newSymbolTableVisitor mainUri,
             [ShowErrorMessage ''Imported file not found: /ws/missing.mykt'' None]))"
proof -
  define ident where "ident = ParserRuleContext 36 Identifier (tok 2 7 ''missing'')
          (Some (tok 2 7 ''missing'')) [TerminalNode 37 (tok 2 7 ''missing'')]"
  have g: "getRuleContext Identifier importMissing = Inr ident"
    unfolding ident_def by code_simp
  have t: "treeText ident = ''missing''" unfolding ident_def by code_simp
  have e: "\<not> existsSync sampleEnv (''/ws/'' @ treeText ident @ ''.mykt'')"
    unfolding ident_def by code_simp
  have pre: "importLoop sampleEnv ''file:///ws/'' ''/ws/'' [importLib] (newSymbolTableVisitor mainUri, [])
      = (None, (libVisitor, []))"
    by code_simp
  have bp: "ensurePath sampleEnv (computeBaseUri (documentUri (newSymbolTableVisitor mainUri))) = Inr ''/ws/''"
    by code_simp
  from missing_import_skipped [OF g e pre, of "[importLib]" "newSymbolTableVisitor mainUri" "[]"] bp
  show ?thesis by (simp add: t)
qed


lemma processImport_frame:
  "frame v (fst (processImport env path (v, msgs)))"
proof (cases "readFileSync env path")
  case (Inl e)
  then show ?thesis by (simp add: processImport_def frame_refl)
next
  case (Inr data)
  obtain r v' where vis: "visit (kotlinFile env data) v = (r, v')"
    by (cases "visit (kotlinFile env data) v")
  with visit_frame [of v "kotlinFile env data"] have "frame v v'" by simp
  with Inr vis show ?thesis by (cases r) (simp_all add: processImport_def)
qed

lemma importedUris_Cons:
  "importedUris bu rest \<subseteq> importedUris bu (imp # rest)"
  "getRuleContext Identifier imp = Inr ident \<Longrightarrow>
     bu @ treeText ident @ ''.mykt'' \<in> importedUris bu (imp # rest)"
  by (auto simp: importedUris_def)

lemma importLoop_frame:
  "importLoop env bu bp imps (v, msgs) = (r, (v', msgs')) \<Longrightarrow>
     scope v' = scope v \<and>
     set (locations (symbolTable v')) \<subseteq>
       set (locations (symbolTable v)) \<union> {l. targetUri l \<in> importedUris bu imps}"
proof (induction imps arbitrary: v msgs)
  case Nil
  then show ?case by simp
next
  case (Cons imp rest)
  show ?case
  proof (cases "getRuleContext Identifier imp")
    case (Inl e)
    with Cons.prems show ?thesis by simp
  next
    case (Inr ident)
    let ?filename = "treeText ident @ ''.mykt''"
    show ?thesis
    proof (cases "existsSync env (bp @ ?filename)")
      case False
      with Inr Cons.prems have "importLoop env bu bp rest
          (v, msgs @ [ShowErrorMessage (''Imported file not found: '' @ bp @ ?filename) None])
          = (r, (v', msgs'))"
        by (simp add: Let_def)
      from Cons.IH [OF this] importedUris_Cons(1) [of bu rest imp] show ?thesis by blast
    next
      case True
      let ?w = "v\<lparr>documentUri := bu @ ?filename\<rparr>"
      obtain w' m' where p: "processImport env (bp @ ?filename) (?w, msgs) = (w', m')"
        by (cases "processImport env (bp @ ?filename) (?w, msgs)")
      with processImport_frame [of ?w env "bp @ ?filename" msgs] have f: "frame ?w w'" by simp
      from True Inr Cons.prems p have "importLoop env bu bp rest (w', m') = (r, (v', msgs'))"
        by (simp add: Let_def)
      from Cons.IH [OF this] have
        s: "scope v' = scope w'" and
        l: "set (locations (symbolTable v')) \<subseteq>
              set (locations (symbolTable w')) \<union> {l. targetUri l \<in> importedUris bu rest}"
        by auto
      from f have s2: "scope w' = scope v" and
        l2: "set (locations (symbolTable w')) \<subseteq>
               set (locations (symbolTable v)) \<union> {l. targetUri l = bu @ ?filename}"
        by (auto simp: frame_def)
      have "set (locations (symbolTable v')) \<subseteq>
              set (locations (symbolTable v)) \<union> {l. targetUri l \<in> importedUris bu (imp # rest)}"
      proof
        fix x assume "x \<in> set (locations (symbolTable v'))"
        with l have "x \<in> set (locations (symbolTable w')) \<or> targetUri x \<in> importedUris bu rest"
          by blast
        then show "x \<in> set (locations (symbolTable v)) \<union>
                     {l. targetUri l \<in> importedUris bu (imp # rest)}"
        proof
          assume "x \<in> set (locations (symbolTable w'))"
          with l2 have "x \<in> set (locations (symbolTable v)) \<or> targetUri x = bu @ ?filename"
            by blast
          with importedUris_Cons(2) [OF Inr, of bu rest] show ?thesis by auto
        next
          assume "targetUri x \<in> importedUris bu rest"
          with importedUris_Cons(1) [of bu rest imp] show ?thesis by blast
        qed
      qed
      with s s2 show ?thesis by simp
    qed
  qed
qed

text \<open>
  C7. For an import that is found the loop hands \<^verbatim>\<open>processImport\<close> the visitor
  with \<^verbatim>\<open>documentUri\<close> set to the URI of the imported file and nothing else
  changed. \<^verbatim>\<open>processImport\<close> leaves \<^verbatim>\<open>documentUri\<close> and the current scope as
  they are, and every location it adds to the table carries that
  \<^verbatim>\<open>documentUri\<close>. When \<^verbatim>\<open>processImports\<close> returns, \<^verbatim>\<open>documentUri\<close> is
  the one it started with, the current scope is the same, and every new location of
  the table carries the URI of one of the imported files.
\<close>

theorem processImports_documentUri:
  "(getRuleContext Identifier imp = Inr ident \<and>
      existsSync env (basePath @ treeText ident @ ''.mykt'') \<longrightarrow>
    importLoop env baseUri basePath (imp # rest) (v, msgs) =
      importLoop env baseUri basePath rest
        (processImport env (basePath @ treeText ident @ ''.mykt'')
           (v\<lparr>documentUri := baseUri @ treeText ident @ ''.mykt''\<rparr>, msgs))) \<and>
   (\<forall>w' m'. processImport env path (w, m) = (w', m') \<longrightarrow>
      documentUri w' = documentUri w \<and> scope w' = scope w \<and>
      set (locations (symbolTable w')) \<subseteq>
        set (locations (symbolTable w)) \<union> {l. targetUri l = documentUri w}) \<and>
   (\<forall>v' msgs'. processImports env imps (v, msgs) = (None, (v', msgs')) \<longrightarrow>
      documentUri v' = documentUri v \<and> scope v' = scope v \<and>
      set (locations (symbolTable v')) \<subseteq>
        set (locations (symbolTable v)) \<union>
        {l. targetUri l \<in> importedUris (computeBaseUri (documentUri v)) imps})"
proof (intro conjI allI impI)
  assume "getRuleContext Identifier imp = Inr ident \<and>
      existsSync env (basePath @ treeText ident @ ''.mykt'')"
  then show "importLoop env baseUri basePath (imp # rest) (v, msgs) =
      importLoop env baseUri basePath rest
        (processImport env (basePath @ treeText ident @ ''.mykt'')
           (v\<lparr>documentUri := baseUri @ treeText ident @ ''.mykt''\<rparr>, msgs))"
    by (simp add: Let_def)
next
  fix w' m' assume "processImport env path (w, m) = (w', m')"
  with processImport_frame [of w env path m] have f: "frame w w'" by simp
  from f show "documentUri w' = documentUri w" by (simp add: frame_def)
  from f show "scope w' = scope w" by (simp add: frame_def)
  from f show "set (locations (symbolTable w')) \<subseteq>
        set (locations (symbolTable w)) \<union> {l. targetUri l = documentUri w}"
    by (simp add: frame_def)
next
  fix v' msgs' assume p: "processImports env imps (v, msgs) = (None, (v', msgs'))"
  then obtain basePath' where bp: "ensurePath env (computeBaseUri (documentUri v)) = Inr basePath'"
    by (cases "ensurePath env (computeBaseUri (documentUri v))")
       (simp_all add: processImports_def Let_def)
  obtain r u ms where il: "importLoop env (computeBaseUri (documentUri v)) basePath' imps (v, msgs)
      = (r, (u, ms))"
    by (metis prod.exhaust)
  with p bp have r: "r = None" and v': "v' = u\<lparr>documentUri := documentUri v\<rparr>"
    by (cases r; simp add: processImports_def Let_def)+
  from importLoop_frame [OF il] have "scope u = scope v"
    and "set (locations (symbolTable u)) \<subseteq> set (locations (symbolTable v)) \<union>
        {l. targetUri l \<in> importedUris (computeBaseUri (documentUri v)) imps}"
    by auto
  with v' show "documentUri v' = documentUri v" and "scope v' = scope v"
    and "set (locations (symbolTable v')) \<subseteq>
        set (locations (symbolTable v)) \<union>
        {l. targetUri l \<in> importedUris (computeBaseUri (documentUri v)) imps}"
    by simp_all
qed


theorem processImports_documentUri_witness:
  "importLoop sampleEnv ''file:///ws/'' ''/ws/'' [importLib, importMissing]
       (newSymbolTableVisitor mainUri, []) =
     importLoop sampleEnv ''file:///ws/'' ''/ws/'' [importMissing] (libVisitor, []) \<and>
   documentUri libVisitor = ''file:///ws/lib.mykt'' \<and>
   scope libVisitor = [0] \<and>
   map (\<lambda>l. (targetUri l, range_start (targetSelectionRange l))) (locations (symbolTable libVisitor)) =
     [(''file:///ws/lib.mykt'', \<lparr> pos_line = 0, character = 4 \<rparr>)] \<and>
   documentUri (fst (snd (processImports sampleEnv [importLib, importMissing]
                            (newSymbolTableVisitor mainUri, [])))) = mainUri \<and>
   scope (fst (snd (processImports sampleEnv [importLib, importMissing]
                      (newSymbolTableVisitor mainUri, [])))) = [0]"
proof -
  let ?v0 = "newSymbolTableVisitor mainUri"
  let ?w0 = "?v0\<lparr>documentUri := ''file:///ws/lib.mykt''\<rparr>"
  have g: "getRuleContext Identifier importLib = Inr libIdentifier \<and>
           existsSync sampleEnv (''/ws/'' @ treeText libIdentifier @ ''.mykt'')"
    by code_simp
  have t: "treeText libIdentifier = ''lib''" by code_simp
  have p: "processImport sampleEnv ''/ws/lib.mykt'' (?w0, []) = (libVisitor, [])"
    by code_simp
  have q: "processImports sampleEnv [importLib, importMissing] (?v0, []) =
             (None, (fst (snd (processImports sampleEnv [importLib, importMissing] (?v0, []))),
                     snd (snd (processImports sampleEnv [importLib, importMissing] (?v0, [])))))"
    by code_simp
  have d: "documentUri ?w0 = ''file:///ws/lib.mykt'' \<and> scope ?w0 = [0] \<and>
           documentUri ?v0 = mainUri \<and> scope ?v0 = [0]"
    by code_simp
  have l: "map (\<lambda>l. (targetUri l, range_start (targetSelectionRange l)))
             (locations (symbolTable libVisitor)) =
           [(''file:///ws/lib.mykt'', \<lparr> pos_line = 0, character = 4 \<rparr>)]"
    by code_simp
  note T = processImports_documentUri
    [of importLib libIdentifier sampleEnv "''/ws/''" "''file:///ws/''" "[importMissing]" ?v0 "[]"
        "''/ws/lib.mykt''" ?w0 "[]" "[importLib, importMissing]"]
  from T g p have 1: "importLoop sampleEnv ''file:///ws/'' ''/ws/'' [importLib, importMissing] (?v0, []) =
     importLoop sampleEnv ''file:///ws/'' ''/ws/'' [importMissing] (libVisitor, [])"
    by (simp add: t)
  from T p have 2: "documentUri libVisitor = documentUri ?w0 \<and> scope libVisitor = scope ?w0"
    by blast
  from T q have 3: "documentUri (fst (snd (processImports sampleEnv [importLib, importMissing] (?v0, []))))
        = documentUri ?v0 \<and>
      scope (fst (snd (processImports sampleEnv [importLib, importMissing] (?v0, [])))) = scope ?v0"
    by blast
  from 1 2 3 d l show ?thesis by simp
qed

subsection \<open>The parse cache\<close>

text \<open>
  C6. The handler of a content change, on the document with its new text, clears the
  cached parser, parse tree and visitor, whatever they were. The next
  \<^verbatim>\<open>ensureParsed\<close> then returns a parser and a tree made from the current text,
  and neither it nor the next definition request depends on what the document had
  cached: two documents with the same URI and text behave alike after the
  notification.
\<close>

theorem change_invalidates_cache:
  fixes d d' :: TextDocument
  shows
  "parser (onDidChangeContent d) = None \<and> parseTree (onDidChangeContent d) = None \<and>
   symbolTableVisitor (onDidChangeContent d) = None \<and>
   (\<forall>p. fst (ensureParsed env (onDidChangeContent d, msgs)) = Inr p \<longrightarrow>
      parsedParser p = KotlinParser (getText d) \<and>
      parsedParseTree p = Some (kotlinFile env (getText d))) \<and>
   (uri d' = uri d \<and> getText d' = getText d \<longrightarrow>
      ensureParsed env (onDidChangeContent d', msgs) =
        ensureParsed env (onDidChangeContent d, msgs) \<and>
      onDefinition env (docs(u \<mapsto> onDidChangeContent d'), msgs) params =
        onDefinition env (docs(u \<mapsto> onDidChangeContent d), msgs) params)"
proof (intro conjI allI impI)
  show "parser (onDidChangeContent d) = None" "parseTree (onDidChangeContent d) = None"
    "symbolTableVisitor (onDidChangeContent d) = None"
    by (simp_all add: onDidChangeContent_def markForReparsing_def)
next
  fix p assume a: "fst (ensureParsed env (onDidChangeContent d, msgs)) = Inr p"
  let ?d = "onDidChangeContent d"
  have n: "parser ?d = None" and t: "getText ?d = getText d"
    by (simp_all add: onDidChangeContent_def markForReparsing_def)
  obtain r1 v1 m1 where imp:
    "(case importHeader env (kotlinFile env (getText d)) of
        None \<Rightarrow> (None, (newSymbolTableVisitor (uri ?d), msgs))
      | Some imps \<Rightarrow> processImports env imps (newSymbolTableVisitor (uri ?d), msgs)) = (r1, (v1, m1))"
    by (metis prod.exhaust)
  obtain r2 v2 where vis: "visit (kotlinFile env (getText d)) v1 = (r2, v2)"
    by (metis prod.exhaust)
  from a n t imp vis have
    "p = \<lparr> parsedParser = KotlinParser (getText d),
           parsedParseTree = Some (kotlinFile env (getText d)),
           parsedVisitor = Some v2 \<rparr>"
    by (cases r1; cases r2; simp add: ensureParsed_def Let_def)
  then show "parsedParser p = KotlinParser (getText d)"
    and "parsedParseTree p = Some (kotlinFile env (getText d))"
    by simp_all
next
  assume "uri d' = uri d \<and> getText d' = getText d"
  then have e: "onDidChangeContent d' = onDidChangeContent d"
    by (cases d; cases d') (simp add: onDidChangeContent_def markForReparsing_def)
  show "ensureParsed env (onDidChangeContent d', msgs) =
        ensureParsed env (onDidChangeContent d, msgs)"
    by (simp add: e)
  show "onDefinition env (docs(u \<mapsto> onDidChangeContent d'), msgs) params =
        onDefinition env (docs(u \<mapsto> onDidChangeContent d), msgs) params"
    by (simp add: e)
qed

theorem change_invalidates_cache_witness:
  "fst (ensureParsed sampleEnv (staleDocument, [])) =
     Inr \<lparr> parsedParser = KotlinParser ''fun helper() {}'', parsedParseTree = Some libFile,
           parsedVisitor = Some libVisitor \<rparr> \<and>
   parser (onDidChangeContent staleDocument) = None \<and>
   fst (ensureParsed sampleEnv (onDidChangeContent staleDocument, [])) =
     Inr \<lparr> parsedParser = KotlinParser mainText, parsedParseTree = Some mainFile,
           parsedVisitor = Some mainVisitor \<rparr> \<and>
   fst (onDefinition sampleEnv (Map.empty(mainUri \<mapsto> onDidChangeContent staleDocument), [])
          \<lparr> textDocumentUri = mainUri, position = \<lparr> pos_line = 3, character = 4 \<rparr> \<rparr>) =
     fst (onDefinition sampleEnv (Map.empty(mainUri \<mapsto> onDidChangeContent freshDocument), [])
          \<lparr> textDocumentUri = mainUri, position = \<lparr> pos_line = 3, character = 4 \<rparr> \<rparr>) \<and>
   fst (onDefinition sampleEnv (Map.empty(mainUri \<mapsto> onDidChangeContent freshDocument), [])
          \<lparr> textDocumentUri = mainUri, position = \<lparr> pos_line = 3, character = 4 \<rparr> \<rparr>) =
     Inr (Some \<lparr> targetUri = ''file:///ws/main.mykt'',
                 targetRange = \<lparr> range_start = \<lparr> pos_line = 2, character = 8 \<rparr>,
                                 range_end = \<lparr> pos_line = 2, character = 9 \<rparr> \<rparr>,
                 targetSelectionRange = \<lparr> range_start = \<lparr> pos_line = 2, character = 8 \<rparr>,
                                 range_end = \<lparr> pos_line = 2, character = 9 \<rparr> \<rparr>,
                 originSelectionRange =
                   Some \<lparr> range_start = \<lparr> pos_line = 3, character = 4 \<rparr>,
                          range_end = \<lparr> pos_line = 3, character = 5 \<rparr> \<rparr> \<rparr>)"
proof -
  have s: "fst (ensureParsed sampleEnv (staleDocument, [])) =
     Inr \<lparr> parsedParser = KotlinParser ''fun helper() {}'', parsedParseTree = Some libFile,
           parsedVisitor = Some libVisitor \<rparr>"
    by (simp add: ensureParsed_def staleDocument_def)
  have r: "fst (ensureParsed sampleEnv (onDidChangeContent staleDocument, [])) =
     Inr \<lparr> parsedParser = parsedParser (projr (fst (ensureParsed sampleEnv (onDidChangeContent staleDocument, [])))),
           parsedParseTree = parsedParseTree (projr (fst (ensureParsed sampleEnv (onDidChangeContent staleDocument, [])))),
           parsedVisitor = Some mainVisitor \<rparr>"
    by code_simp
  have u: "uri staleDocument = uri freshDocument \<and> getText staleDocument = getText freshDocument"
    by (simp add: staleDocument_def freshDocument_def)
  have t: "getText staleDocument = mainText" by (simp add: staleDocument_def)
  have k: "kotlinFile sampleEnv mainText = mainFile" by code_simp
  have f: "fst (onDefinition sampleEnv (Map.empty(mainUri \<mapsto> onDidChangeContent freshDocument), [])
          \<lparr> textDocumentUri = mainUri, position = \<lparr> pos_line = 3, character = 4 \<rparr> \<rparr>) =
     Inr (Some \<lparr> targetUri = ''file:///ws/main.mykt'',
                 targetRange = \<lparr> range_start = \<lparr> pos_line = 2, character = 8 \<rparr>,
                                 range_end = \<lparr> pos_line = 2, character = 9 \<rparr> \<rparr>,
                 targetSelectionRange = \<lparr> range_start = \<lparr> pos_line = 2, character = 8 \<rparr>,
                                 range_end = \<lparr> pos_line = 2, character = 9 \<rparr> \<rparr>,
                 originSelectionRange =
                   Some \<lparr> range_start = \<lparr> pos_line = 3, character = 4 \<rparr>,
                          range_end = \<lparr> pos_line = 3, character = 5 \<rparr> \<rparr> \<rparr>)"
    by code_simp
  note T = change_invalidates_cache [of staleDocument sampleEnv "[]" freshDocument Map.empty mainUri
      "\<lparr> textDocumentUri = mainUri, position = \<lparr> pos_line = 3, character = 4 \<rparr> \<rparr>"]
  note T' = change_invalidates_cache [of freshDocument sampleEnv "[]" staleDocument Map.empty mainUri
      "\<lparr> textDocumentUri = mainUri, position = \<lparr> pos_line = 3, character = 4 \<rparr> \<rparr>"]
  from T have 1: "parser (onDidChangeContent staleDocument) = None" by blast
  from T r have 2: "parsedParser (projr (fst (ensureParsed sampleEnv (onDidChangeContent staleDocument, []))))
        = KotlinParser (getText staleDocument) \<and>
      parsedParseTree (projr (fst (ensureParsed sampleEnv (onDidChangeContent staleDocument, []))))
        = Some (kotlinFile sampleEnv (getText staleDocument))"
    by (metis Parsed.select_convs(1) Parsed.select_convs(2))
  from T' u have 3: "onDefinition sampleEnv (Map.empty(mainUri \<mapsto> onDidChangeContent staleDocument), [])
          \<lparr> textDocumentUri = mainUri, position = \<lparr> pos_line = 3, character = 4 \<rparr> \<rparr> =
        onDefinition sampleEnv (Map.empty(mainUri \<mapsto> onDidChangeContent freshDocument), [])
          \<lparr> textDocumentUri = mainUri, position = \<lparr> pos_line = 3, character = 4 \<rparr> \<rparr>"
    by blast
  from r 2 t k have 4: "fst (ensureParsed sampleEnv (onDidChangeContent staleDocument, [])) =
     Inr \<lparr> parsedParser = KotlinParser mainText, parsedParseTree = Some mainFile,
           parsedVisitor = Some mainVisitor \<rparr>"
    by simp
  from s 1 3 4 f show ?thesis by simp
qed

end
